theory Spec2Isabelle
  imports Complex_Main "HOL-Library.Word" "HOL-Library.AList"
begin

unbundle bit_operations_syntax

section \<open>Time and durations\<close>

text \<open>
  Go's \<^verbatim>\<open>time.Duration\<close> is an \<^verbatim>\<open>int64\<close> count of nanoseconds: a 64-bit word read
  with \<open>sint\<close>, whose addition and multiplication wrap around. An instant of the
  monotonic clock is an integer number of nanoseconds.
\<close>

type_synonym Duration = "64 word"
type_synonym Time = int

definition maxDuration :: int where
  "maxDuration = 2 ^ 63 - 1"

definition minDuration :: int where
  "minDuration = - (2 ^ 63)"

definition Second :: Duration where
  "Second = 1000000000"

text \<open>
  \<^verbatim>\<open>Time.Sub\<close> saturates: a difference outside the range of a Duration is returned as
  the largest (or smallest) Duration. \<^verbatim>\<open>time.Since(t)\<close> is \<^verbatim>\<open>time.Now().Sub(t)\<close>.
\<close>

definition time_Sub :: "Time \<Rightarrow> Time \<Rightarrow> Duration" where
  "time_Sub t u =
     (let d = t - u in
      if d > maxDuration then word_of_int maxDuration
      else if d < minDuration then word_of_int minDuration
      else word_of_int d)"

definition time_Since :: "Time \<Rightarrow> Time \<Rightarrow> Duration" where
  "time_Since now t = time_Sub now t"

section \<open>The cache (pkg/cache)\<close>

text \<open>
  The struct \<^verbatim>\<open>Cache\<close>. The pointer \<^verbatim>\<open>data\<close> is an option (\<open>None\<close> is nil); the two
  atomic counters are 64-bit words. The clock is read by the caller and passed in as
  \<open>now\<close>. The locks are not modelled here: each operation runs under the cache's lock
  and is one atomic step.
\<close>

record 'r Cache =
  data :: "'r option"
  fetchedAt :: Time
  ttl :: Duration
  maxStale :: Duration
  hits :: "64 word"
  misses :: "64 word"

definition New_Cache :: "Duration \<Rightarrow> Duration \<Rightarrow> 'r Cache" where
  "New_Cache t m =
     \<lparr>data = None, fetchedAt = 0, ttl = t, maxStale = m, hits = 0, misses = 0\<rparr>"

definition Get :: "Time \<Rightarrow> 'r Cache \<Rightarrow> ('r option \<times> bool \<times> bool) \<times> 'r Cache" where
  "Get now c =
     (case data c of
        None \<Rightarrow> ((None, False, False), c\<lparr>misses := misses c + 1\<rparr>)
      | Some d \<Rightarrow>
          (let age = time_Since now (fetchedAt c) in
           if age \<le>s ttl c then ((Some d, False, True), c\<lparr>hits := hits c + 1\<rparr>)
           else if age \<le>s ttl c + maxStale c
             then ((Some d, True, True), c\<lparr>hits := hits c + 1\<rparr>)
           else ((None, False, False), c\<lparr>misses := misses c + 1\<rparr>)))"

definition Set_Cache :: "Time \<Rightarrow> 'r option \<Rightarrow> 'r Cache \<Rightarrow> 'r Cache" where
  "Set_Cache now d c = c\<lparr>data := d, fetchedAt := now\<rparr>"

definition Age :: "Time \<Rightarrow> 'r Cache \<Rightarrow> Duration" where
  "Age now c = (case data c of None \<Rightarrow> 0 | Some _ \<Rightarrow> time_Since now (fetchedAt c))"

definition Stats :: "'r Cache \<Rightarrow> 64 word \<times> 64 word" where
  "Stats c = (hits c, misses c)"

definition IsPopulated :: "'r Cache \<Rightarrow> bool" where
  "IsPopulated c = (data c \<noteq> None)"

section \<open>The HTTP client (pkg/client)\<close>

text \<open>
  \<^verbatim>\<open>context.Context.Err\<close> returns nil, \<^verbatim>\<open>context.Canceled\<close> or
  \<^verbatim>\<open>context.DeadlineExceeded\<close>.
\<close>

datatype ctx_error = Canceled | DeadlineExceeded

text \<open>
  The errors \<^verbatim>\<open>FetchCloudCosts\<close> and \<^verbatim>\<open>doFetch\<close> build with \<^verbatim>\<open>fmt.Errorf\<close>, one
  constructor per format string; the string argument is the text of the wrapped library
  error. \<open>AfterRetries n e\<close> is \<^verbatim>\<open>fmt.Errorf("after %d retries: %w", n, e)\<close>, where the
  wrapped \<^verbatim>\<open>lastErr\<close> is nil (\<open>None\<close>) when the loop body never ran.
\<close>

datatype error =
    InvalidBaseURL string
  | ParseEndpoint string
  | CreateRequest string
  | DoRequest string
  | ReadResponseBody string
  | UnexpectedStatus int string
  | DecodeResponse string
  | ContextError ctx_error
  | AfterRetries int "error option"

text \<open>
  What one HTTP exchange of \<^verbatim>\<open>doFetch\<close> can come to: the request cannot be built, the
  transport fails, the body cannot be read, or a response with a status code and a body
  arrives.
\<close>

datatype http_exchange =
    RequestRejected string
  | TransportFailure string
  | BodyUnreadable string
  | Response int string

text \<open>
  \<^verbatim>\<open>doFetch\<close>: every status other than 200 is an error, and so is a body that
  \<^verbatim>\<open>json.Unmarshal\<close> (the parameter \<open>um\<close>) rejects.
\<close>

definition doFetch :: "(string \<Rightarrow> string + 'r) \<Rightarrow> http_exchange \<Rightarrow> error + 'r" where
  "doFetch um x =
     (case x of
        RequestRejected e \<Rightarrow> Inl (CreateRequest e)
      | TransportFailure e \<Rightarrow> Inl (DoRequest e)
      | BodyUnreadable e \<Rightarrow> Inl (ReadResponseBody e)
      | Response status body \<Rightarrow>
          if status \<noteq> 200 then Inl (UnexpectedStatus status body)
          else (case um body of
                  Inl e \<Rightarrow> Inl (DecodeResponse e)
                | Inr result \<Rightarrow> Inr result))"

text \<open>
  The world one call of \<^verbatim>\<open>FetchCloudCosts\<close> runs in. \<open>endpoint\<close> is the outcome of
  \<^verbatim>\<open>url.JoinPath\<close> and \<^verbatim>\<open>url.Parse\<close> on the base URL (an error is returned before any
  request); \<open>exchange a\<close> is what the request of attempt \<open>a\<close> comes to; \<open>ctx_done a\<close> is
  \<open>Some e\<close> when the \<^verbatim>\<open>select\<close> before attempt \<open>a\<close> takes the \<^verbatim>\<open>ctx.Done()\<close> branch
  (and \<^verbatim>\<open>ctx.Err()\<close> is \<open>e\<close>), \<open>None\<close> when the timer fires; \<open>ctx_err a\<close> is what
  \<^verbatim>\<open>ctx.Err()\<close> returns after attempt \<open>a\<close> has failed.
\<close>

record 'r fetch_env =
  endpoint :: "error + string"
  unmarshal :: "string \<Rightarrow> string + 'r"
  exchange :: "int \<Rightarrow> http_exchange"
  ctx_done :: "int \<Rightarrow> ctx_error option"
  ctx_err :: "int \<Rightarrow> ctx_error option"

text \<open>
  What the call does, in order: a request of attempt \<open>a\<close>, a backoff slept in full, and
  a cancellation seen by the loop.
\<close>

datatype event = Request int | Backoff Duration | ContextDone ctx_error

text \<open>
  \<^verbatim>\<open>time.Duration(1<<(attempt-1)) * time.Second\<close>: both the shift and the product are
  64-bit, so the shift gives 0 from 64 bits on and the product wraps around.
\<close>

definition backoff :: "int \<Rightarrow> Duration" where
  "backoff attempt = push_bit (nat (attempt - 1)) 1 * Second"

text \<open>
  The loop \<^verbatim>\<open>for attempt := 0; attempt <= c.maxRetries; attempt++\<close>, from \<open>attempt\<close> on,
  with the current \<^verbatim>\<open>lastErr\<close>. It returns the result and the events from here on. The
  counter is an unbounded integer: for it to overflow, \<open>maxRetries\<close> would have to be the
  largest \<^verbatim>\<open>int\<close>.
\<close>

function retry_loop ::
  "'r fetch_env \<Rightarrow> int \<Rightarrow> int \<Rightarrow> error option \<Rightarrow> (error + 'r) \<times> event list" where
  "retry_loop env maxRetries attempt lastErr =
     (if attempt \<le> maxRetries then
        (case (if attempt > 0 then ctx_done env attempt else None) of
           Some e \<Rightarrow> (Inl (ContextError e), [ContextDone e])
         | None \<Rightarrow>
             (let slept = (if attempt > 0 then [Backoff (backoff attempt)] else []) in
              case doFetch (unmarshal env) (exchange env attempt) of
                Inr result \<Rightarrow> (Inr result, slept @ [Request attempt])
              | Inl err \<Rightarrow>
                  (case ctx_err env attempt of
                     Some e \<Rightarrow> (Inl (ContextError e), slept @ [Request attempt, ContextDone e])
                   | None \<Rightarrow>
                       (case retry_loop env maxRetries (attempt + 1) (Some err) of
                          (r, evs) \<Rightarrow> (r, slept @ Request attempt # evs)))))
      else (Inl (AfterRetries maxRetries lastErr), []))"
  by pat_completeness auto
termination
  by (relation "measure (\<lambda>(env, maxRetries, attempt, lastErr). nat (maxRetries + 1 - attempt))")
    auto

declare retry_loop.simps [simp del]

definition FetchCloudCosts :: "'r fetch_env \<Rightarrow> int \<Rightarrow> (error + 'r) \<times> event list" where
  "FetchCloudCosts env maxRetries =
     (case endpoint env of
        Inl e \<Rightarrow> (Inl e, [])
      | Inr u \<Rightarrow> retry_loop env maxRetries 0 None)"

text \<open>The verb \<^verbatim>\<open>%d\<close> of \<^verbatim>\<open>fmt\<close>: decimal digits, with a minus sign.\<close>

function itoa_nat :: "nat \<Rightarrow> string" where
  "itoa_nat n =
     (if n < 10 then [''0123456789'' ! n]
      else itoa_nat (n div 10) @ [''0123456789'' ! (n mod 10)])"
  by pat_completeness auto
termination
  by (relation "measure id") auto

declare itoa_nat.simps [simp del]

definition itoa :: "int \<Rightarrow> string" where
  "itoa i = (if i < 0 then CHR ''-'' # itoa_nat (nat (- i)) else itoa_nat (nat i))"

text \<open>The method \<^verbatim>\<open>Error()\<close> (the message) and \<^verbatim>\<open>errors.Unwrap\<close> of the retry error.\<close>

fun Error :: "error \<Rightarrow> string" where
  "Error (InvalidBaseURL e) = ''invalid base URL: '' @ e"
| "Error (ParseEndpoint e) = ''parse endpoint: '' @ e"
| "Error (CreateRequest e) = ''create request: '' @ e"
| "Error (DoRequest e) = ''do request: '' @ e"
| "Error (ReadResponseBody e) = ''read response body: '' @ e"
| "Error (UnexpectedStatus status body) = ''unexpected status '' @ itoa status @ '': '' @ body"
| "Error (DecodeResponse e) = ''decode response: '' @ e"
| "Error (ContextError Canceled) = ''context canceled''"
| "Error (ContextError DeadlineExceeded) = ''context deadline exceeded''"
| "Error (AfterRetries n None) = ''after '' @ itoa n @ '' retries: %!w(<nil>)''"
| "Error (AfterRetries n (Some e)) = ''after '' @ itoa n @ '' retries: '' @ Error e"

fun Unwrap :: "error \<Rightarrow> error option" where
  "Unwrap (AfterRetries n e) = e"
| "Unwrap _ = None"

subsection \<open>Reading a run of the client\<close>

text \<open>An exchange that fails with a transport error or a status outside 200..299.\<close>

definition failing :: "http_exchange \<Rightarrow> bool" where
  "failing x =
     (case x of
        TransportFailure _ \<Rightarrow> True
      | Response status _ \<Rightarrow> \<not> (200 \<le> status \<and> status < 300)
      | _ \<Rightarrow> False)"

text \<open>
  Attempt \<open>j\<close> fails and no cancellation is seen around it, so the loop goes on to
  attempt \<open>j + 1\<close>.
\<close>

definition passes :: "'r fetch_env \<Rightarrow> int \<Rightarrow> bool" where
  "passes env j \<longleftrightarrow>
     isl (doFetch (unmarshal env) (exchange env j))
     \<and> ctx_err env j = None \<and> (j > 0 \<longrightarrow> ctx_done env j = None)"

fun requests :: "event list \<Rightarrow> int list" where
  "requests [] = []"
| "requests (Request a # evs) = a # requests evs"
| "requests (_ # evs) = requests evs"

fun backoffs :: "event list \<Rightarrow> Duration list" where
  "backoffs [] = []"
| "backoffs (Backoff d # evs) = d # backoffs evs"
| "backoffs (_ # evs) = backoffs evs"

text \<open>
  The events of \<open>n\<close> failed attempts in a row from attempt \<open>a\<close> on: each retry is
  preceded by its backoff.
\<close>

fun schedule :: "int \<Rightarrow> nat \<Rightarrow> event list" where
  "schedule a 0 = []"
| "schedule a (Suc n) =
     (if a > 0 then [Backoff (backoff a)] else []) @ Request a # schedule (a + 1) n"

text \<open>
  Three worlds: an endpoint that answers 500 to every request, the same with the
  context cancelled during the first backoff, and the same with the deadline passed
  during the first request.
\<close>

definition always_500 :: "'r fetch_env" where
  "always_500 =
     \<lparr>endpoint = Inr ''http://opencost:9003/cloudCost?window=1d'',
      unmarshal = (\<lambda>body. Inl ''invalid character''),
      exchange = (\<lambda>attempt. Response 500 ''internal error''),
      ctx_done = (\<lambda>attempt. None),
      ctx_err = (\<lambda>attempt. None)\<rparr>"

definition canceled_in_backoff :: "'r fetch_env" where
  "canceled_in_backoff = always_500\<lparr>ctx_done := (\<lambda>attempt. Some Canceled)\<rparr>"

definition deadline_in_request :: "'r fetch_env" where
  "deadline_in_request = always_500\<lparr>ctx_err := (\<lambda>attempt. Some DeadlineExceeded)\<rparr>"

section \<open>The response types (pkg/types)\<close>

text \<open>
  The structs the JSON response is decoded into. The costs are \<^verbatim>\<open>float64\<close> in the
  source; here they are of any type \<open>'a\<close> that has an addition and a zero, so that
  nothing proved below rests on a law of arithmetic that floating-point addition does
  not have. The Go map \<^verbatim>\<open>CloudCosts\<close> is the list of its entries in the order in which
  \<^verbatim>\<open>range\<close> visits them (an order Go leaves unspecified, so statements hold for every
  list); the label map is a partial function.
\<close>

record 'a CostValue =
  Cost :: 'a
  KubernetesPercent :: 'a

record CloudCostProperties =
  ProviderID :: string
  Provider :: string
  AccountID :: string
  AccountName :: string
  InvoiceEntityID :: string
  InvoiceEntityName :: string
  AvailabilityZone :: string
  RegionID :: string
  Service :: string
  Category :: string
  Labels :: "string \<rightharpoonup> string"

record Window =
  Start :: string
  End :: string

record 'a CloudCostItem =
  Properties :: CloudCostProperties
  Window :: Window
  ListCost :: "'a CostValue"
  NetCost :: "'a CostValue"
  AmortizedNetCost :: "'a CostValue"
  InvoicedCost :: "'a CostValue"
  AmortizedCost :: "'a CostValue"

record 'a CloudCostSet =
  CloudCosts :: "(string \<times> 'a CloudCostItem) list"

record 'a CloudCostData =
  Sets :: "'a CloudCostSet list"

record 'a CloudCostResponse =
  Code :: int
  Data :: "'a CloudCostData"

section \<open>The collector (pkg/collector)\<close>

subsection \<open>Aggregation\<close>

record costKey =
  providerID :: string
  accountID :: string
  service :: string
  category :: string
  region :: string
  availabilityZone :: string
  owner :: string
  environment :: string
  cluster :: string

record 'a aggregatedCost =
  listCost :: 'a
  netCost :: 'a
  amortizedNetCost :: 'a
  invoicedCost :: 'a
  amortizedCost :: 'a
  kubePercent :: 'a

text \<open>Indexing a Go map of strings: a missing key (or a nil map) gives the empty string.\<close>

definition label :: "(string \<rightharpoonup> string) \<Rightarrow> string \<Rightarrow> string" where
  "label m k = (case m k of None \<Rightarrow> [] | Some v \<Rightarrow> v)"

definition item_key :: "'a CloudCostItem \<Rightarrow> costKey" where
  "item_key item =
     \<lparr>providerID = ProviderID (Properties item),
      accountID = AccountID (Properties item),
      service = Service (Properties item),
      category = Category (Properties item),
      region = RegionID (Properties item),
      availabilityZone = AvailabilityZone (Properties item),
      owner = label (Labels (Properties item)) ''owner'',
      environment = label (Labels (Properties item)) ''environment'',
      cluster = label (Labels (Properties item)) ''cluster''\<rparr>"

text \<open>The zero value \<^verbatim>\<open>&aggregatedCost{}\<close> and the six assignments of the loop body.\<close>

definition zero_cost :: "'a::zero aggregatedCost" where
  "zero_cost =
     \<lparr>listCost = 0, netCost = 0, amortizedNetCost = 0, invoicedCost = 0,
      amortizedCost = 0, kubePercent = 0\<rparr>"

definition accumulate :: "'a::plus CloudCostItem \<Rightarrow> 'a aggregatedCost \<Rightarrow> 'a aggregatedCost" where
  "accumulate item cost =
     \<lparr>listCost = listCost cost + Cost (ListCost item),
      netCost = netCost cost + Cost (NetCost item),
      amortizedNetCost = amortizedNetCost cost + Cost (AmortizedNetCost item),
      invoicedCost = invoicedCost cost + Cost (InvoicedCost item),
      amortizedCost = amortizedCost cost + Cost (AmortizedCost item),
      kubePercent = KubernetesPercent (ListCost item)\<rparr>"

text \<open>
  The map \<^verbatim>\<open>aggregated\<close> is an association list with one entry per key, in the order in
  which the keys were first inserted. One item: create the entry if it is missing, then
  add the item to it.
\<close>

definition add_item ::
  "'a::{plus,zero} CloudCostItem \<Rightarrow> (costKey \<times> 'a aggregatedCost) list
     \<Rightarrow> (costKey \<times> 'a aggregatedCost) list" where
  "add_item item aggregated =
     (let key = item_key item;
          cost = (case map_of aggregated key of None \<Rightarrow> zero_cost | Some c \<Rightarrow> c)
      in AList.update key (accumulate item cost) aggregated)"

definition aggregate ::
  "'a::{plus,zero} CloudCostResponse \<Rightarrow> (costKey \<times> 'a aggregatedCost) list" where
  "aggregate resp =
     fold (\<lambda>s aggregated. fold (\<lambda>(ident, item). add_item item) (CloudCosts s) aggregated)
       (Sets (Data resp)) []"

subsection \<open>Emission\<close>

text \<open>
  A \<^verbatim>\<open>prometheus.Desc\<close> with its variable label names, and a constant gauge made from
  it. \<^verbatim>\<open>MustNewConstMetric\<close> panics when the number of label values is not the number
  of label names; taking \<^verbatim>\<open>labels[:4]\<close> of a shorter slice panics too.
\<close>

record Desc =
  fqName :: string
  helpText :: string
  variableLabels :: "string list"

record 'a Metric =
  desc :: Desc
  val :: 'a
  labelValues :: "string list"

datatype panic = SliceBoundsOutOfRange | InconsistentLabelCardinality

definition namespace :: string where
  "namespace = ''aws_cloud''"

definition costTotalDesc :: Desc where
  "costTotalDesc =
     \<lparr>fqName = namespace @ ''_cost_total'',
      helpText = ''AWS cloud cost in USD'',
      variableLabels = [''provider_id'', ''account_id'', ''service'', ''category'',
        ''cost_type'', ''region'', ''availability_zone'', ''owner'', ''environment'',
        ''cluster'']\<rparr>"

definition kubePercentDesc :: Desc where
  "kubePercentDesc =
     \<lparr>fqName = namespace @ ''_cost_kubernetes_percent'',
      helpText = ''Percentage of cost attributed to Kubernetes'',
      variableLabels = [''provider_id'', ''account_id'', ''service'', ''category'',
        ''cost_type'', ''region'']\<rparr>"

definition MustNewConstMetric :: "Desc \<Rightarrow> 'a \<Rightarrow> string list \<Rightarrow> panic + 'a Metric" where
  "MustNewConstMetric d v lvs =
     (if length lvs \<noteq> length (variableLabels d) then Inl InconsistentLabelCardinality
      else Inr \<lparr>desc = d, val = v, labelValues = lvs\<rparr>)"

text \<open>Running the next statement unless the last one panicked.\<close>

definition and_then :: "panic + 'x \<Rightarrow> ('x \<Rightarrow> panic + 'y) \<Rightarrow> panic + 'y" where
  "and_then r f = (case r of Inl p \<Rightarrow> Inl p | Inr x \<Rightarrow> f x)"

text \<open>Sending on the channel \<open>ch\<close> appends to the list of metrics sent so far.\<close>

definition emitCost ::
  "'a Metric list \<Rightarrow> string list \<Rightarrow> string \<Rightarrow> 'a \<Rightarrow> panic + 'a Metric list" where
  "emitCost ch labels costType v =
     (if length labels < 4 then Inl SliceBoundsOutOfRange
      else
        (let fullLabels = take 4 labels @ [costType] @ drop 4 labels
         in and_then (MustNewConstMetric costTotalDesc v fullLabels) (\<lambda>m. Inr (ch @ [m]))))"

text \<open>The body of the loop over \<^verbatim>\<open>aggregated\<close>, for one key and its cost.\<close>

definition emit_key ::
  "bool \<Rightarrow> 'a Metric list \<Rightarrow> costKey \<times> 'a aggregatedCost \<Rightarrow> panic + 'a Metric list" where
  "emit_key emitKubePercentMetrics ch entry =
     (case entry of (key, cost) \<Rightarrow>
       (let labels = [providerID key, accountID key, service key, category key, region key,
                      availabilityZone key, owner key, environment key, cluster key]
        in
        and_then (emitCost ch labels ''list'' (listCost cost)) (\<lambda>ch.
        and_then (emitCost ch labels ''net'' (netCost cost)) (\<lambda>ch.
        and_then (emitCost ch labels ''amortized_net'' (amortizedNetCost cost)) (\<lambda>ch.
        and_then (emitCost ch labels ''invoiced'' (invoicedCost cost)) (\<lambda>ch.
        and_then (emitCost ch labels ''amortized'' (amortizedCost cost)) (\<lambda>ch.
          if emitKubePercentMetrics then
            and_then
              (MustNewConstMetric kubePercentDesc (kubePercent cost)
                 [providerID key, accountID key, service key, category key,
                  ''amortized_net'', region key])
              (\<lambda>m. Inr (ch @ [m]))
          else Inr ch)))))))"

text \<open>
  The loop \<^verbatim>\<open>for key, cost := range aggregated\<close>. Go visits the entries in an
  unspecified order; the model visits them in the order of first insertion.
\<close>

fun emit_loop ::
  "bool \<Rightarrow> 'a Metric list \<Rightarrow> (costKey \<times> 'a aggregatedCost) list \<Rightarrow> panic + 'a Metric list"
  where
  "emit_loop emitKubePercentMetrics ch [] = Inr ch"
| "emit_loop emitKubePercentMetrics ch (entry # rest) =
     and_then (emit_key emitKubePercentMetrics ch entry)
       (\<lambda>ch. emit_loop emitKubePercentMetrics ch rest)"

definition emitCostMetrics ::
  "bool \<Rightarrow> 'a Metric list \<Rightarrow> 'a::{plus,zero} CloudCostResponse \<Rightarrow> panic + 'a Metric list"
  where
  "emitCostMetrics emitKubePercentMetrics ch resp =
     emit_loop emitKubePercentMetrics ch (aggregate resp)"

subsection \<open>Reading a snapshot and the metrics sent\<close>

text \<open>
  Every item of every set, in the order in which the two loops visit them, and the
  items that share a key.
\<close>

definition all_items :: "'a CloudCostResponse \<Rightarrow> 'a CloudCostItem list" where
  "all_items resp = concat (map (\<lambda>s. map snd (CloudCosts s)) (Sets (Data resp)))"

definition items_of :: "costKey \<Rightarrow> 'a CloudCostResponse \<Rightarrow> 'a CloudCostItem list" where
  "items_of key resp = filter (\<lambda>item. item_key item = key) (all_items resp)"

text \<open>
  The nine identifying label values of a key, and the label values of a cost metric
  other than its cost type (the fifth).
\<close>

definition key_labels :: "costKey \<Rightarrow> string list" where
  "key_labels key =
     [providerID key, accountID key, service key, category key, region key,
      availabilityZone key, owner key, environment key, cluster key]"

definition identifying :: "'a Metric \<Rightarrow> string list" where
  "identifying m = take 4 (labelValues m) @ drop 5 (labelValues m)"

text \<open>The metrics one pass of the emission loop sends for an entry, written out.\<close>

definition cost_metric :: "costKey \<Rightarrow> string \<Rightarrow> 'a \<Rightarrow> 'a Metric" where
  "cost_metric key costType v =
     \<lparr>desc = costTotalDesc, val = v,
      labelValues = [providerID key, accountID key, service key, category key, costType,
        region key, availabilityZone key, owner key, environment key, cluster key]\<rparr>"

definition kube_metric :: "costKey \<Rightarrow> 'a \<Rightarrow> 'a Metric" where
  "kube_metric key v =
     \<lparr>desc = kubePercentDesc, val = v,
      labelValues = [providerID key, accountID key, service key, category key,
        ''amortized_net'', region key]\<rparr>"

definition key_metrics :: "bool \<Rightarrow> costKey \<times> 'a aggregatedCost \<Rightarrow> 'a Metric list" where
  "key_metrics enabled entry =
     [cost_metric (fst entry) ''list'' (listCost (snd entry)),
      cost_metric (fst entry) ''net'' (netCost (snd entry)),
      cost_metric (fst entry) ''amortized_net'' (amortizedNetCost (snd entry)),
      cost_metric (fst entry) ''invoiced'' (invoicedCost (snd entry)),
      cost_metric (fst entry) ''amortized'' (amortizedCost (snd entry))]
     @ (if enabled then [kube_metric (fst entry) (kubePercent (snd entry))] else [])"

text \<open>
  Snapshots to run the collector on, with rational costs: \<open>two_sets\<close> has two items
  with the same key in different sets (list costs 100.50 and 50.00) and one item with
  another key; \<open>one_item\<close> is a single item with list cost 100.50, the other costs
  70.30 and Kubernetes fraction 0.75 on its list cost (0 on the other costs).
\<close>

definition ec2_item :: "string \<Rightarrow> 'a \<Rightarrow> 'a \<Rightarrow> 'a \<Rightarrow> 'a::zero CloudCostItem" where
  "ec2_item az list_cost other_cost kube =
     \<lparr>Properties =
        \<lparr>ProviderID = ''i-0123'', Provider = ''aws'', AccountID = ''123456789'',
         AccountName = ''main'', InvoiceEntityID = ''123456789'', InvoiceEntityName = ''main'',
         AvailabilityZone = az, RegionID = ''us-east-1'', Service = ''AmazonEC2'',
         Category = ''Compute'',
         Labels = [''owner'' \<mapsto> ''team-alpha'', ''environment'' \<mapsto> ''prod'']\<rparr>,
      Window = \<lparr>Start = ''2026-01-01T00:00:00Z'', End = ''2026-01-02T00:00:00Z''\<rparr>,
      ListCost = \<lparr>Cost = list_cost, KubernetesPercent = kube\<rparr>,
      NetCost = \<lparr>Cost = other_cost, KubernetesPercent = 0\<rparr>,
      AmortizedNetCost = \<lparr>Cost = other_cost, KubernetesPercent = 0\<rparr>,
      InvoicedCost = \<lparr>Cost = other_cost, KubernetesPercent = 0\<rparr>,
      AmortizedCost = \<lparr>Cost = other_cost, KubernetesPercent = 0\<rparr>\<rparr>"

definition ec2_key :: "string \<Rightarrow> costKey" where
  "ec2_key az =
     \<lparr>providerID = ''i-0123'', accountID = ''123456789'', service = ''AmazonEC2'',
      category = ''Compute'', region = ''us-east-1'', availabilityZone = az,
      owner = ''team-alpha'', environment = ''prod'', cluster = ''''\<rparr>"

definition two_sets :: "rat CloudCostResponse" where
  "two_sets =
     \<lparr>Code = 200,
      Data = \<lparr>Sets =
        [\<lparr>CloudCosts = [(''a'', ec2_item ''us-east-1a'' (201 / 2) 80 (1 / 4)),
                        (''b'', ec2_item ''us-east-1b'' 7 5 1)]\<rparr>,
         \<lparr>CloudCosts = [(''a'', ec2_item ''us-east-1a'' 50 40 (1 / 2))]\<rparr>]\<rparr>\<rparr>"

definition one_item :: "rat CloudCostResponse" where
  "one_item =
     \<lparr>Code = 200,
      Data = \<lparr>Sets =
        [\<lparr>CloudCosts = [(''test-item'', ec2_item ''us-east-1a'' (201 / 2) (703 / 10) (3 / 4))]\<rparr>]\<rparr>\<rparr>"

subsection \<open>Scraping\<close>

text \<open>
  The mutable part of \<^verbatim>\<open>CloudCostCollector\<close> and the two settings the code below
  reads. The Prometheus counters count calls of \<^verbatim>\<open>Inc\<close>; the histogram is the list of
  the durations observed; the gauges hold the last value set. \<open>client_maxRetries\<close> is
  \<^verbatim>\<open>c.client.maxRetries\<close>.
\<close>

record 'a Collector =
  cache :: "'a CloudCostResponse Cache"
  client_maxRetries :: int
  emitKubePercentMetrics :: bool
  scrapeDuration :: "Duration list"
  scrapeErrors :: nat
  cacheHits :: nat
  cacheMisses :: nat
  cacheAge :: Duration
  lastSuccessfulScrape :: Time
  refreshing :: bool

text \<open>
  One call of \<^verbatim>\<open>fetchAndCache\<close> happens in a world of the client, takes \<open>elapsed\<close>,
  and reads the clock at \<open>finished\<close> when it stores the result.
\<close>

record 'a fetch_run =
  world :: "'a CloudCostResponse fetch_env"
  elapsed :: Duration
  finished :: Time

definition fetchAndCache ::
  "'a fetch_run \<Rightarrow> 'a Collector \<Rightarrow> 'a CloudCostResponse option \<times> 'a Collector" where
  "fetchAndCache r c =
     (let result = fst (FetchCloudCosts (world r) (client_maxRetries c));
          c = c\<lparr>scrapeDuration := scrapeDuration c @ [elapsed r]\<rparr>
      in case result of
           Inl err \<Rightarrow> (None, c\<lparr>scrapeErrors := scrapeErrors c + 1\<rparr>)
         | Inr d \<Rightarrow>
             (Some d,
              c\<lparr>cache := Set_Cache (finished r) (Some d) (cache c),
                lastSuccessfulScrape := finished r\<rparr>))"

definition refreshCache :: "'a fetch_run \<Rightarrow> 'a Collector \<Rightarrow> 'a Collector" where
  "refreshCache r c = snd (fetchAndCache r c)"

text \<open>
  \<^verbatim>\<open>Collect\<close> runs between taking and releasing the collector's mutex. It is given
  here in the three parts that touch the shared state at different moments, and as
  their sequence. \<open>Collect_get\<close> is \<^verbatim>\<open>cache.Get\<close> and the branch on its result: on a hit the
  hit counter and, for stale data with the flag clear, setting the flag and starting the
  goroutine (the third component of the result); on a miss the miss counter, and the
  second component says that the synchronous \<open>fetchAndCache\<close> is to follow.
  \<open>Collect_emit\<close> is the rest: the age gauge and the cost metrics, none when the
  snapshot is nil. The self-observability metrics and the exchange rates, which are
  sent too, are left out.
\<close>

definition Collect_get ::
  "Time \<Rightarrow> 'a Collector \<Rightarrow> ('a CloudCostResponse option \<times> bool \<times> bool) \<times> 'a Collector" where
  "Collect_get now c =
     (case Get now (cache c) of ((d, isStale, ok), ca) \<Rightarrow>
        (let c = c\<lparr>cache := ca\<rparr> in
         if ok then
           (let c = c\<lparr>cacheHits := cacheHits c + 1\<rparr>
            in if isStale \<and> \<not> refreshing c then ((d, False, True), c\<lparr>refreshing := True\<rparr>)
               else ((d, False, False), c))
         else ((d, True, False), c\<lparr>cacheMisses := cacheMisses c + 1\<rparr>)))"

record 'a scrape_result =
  served :: "'a CloudCostResponse option"
  metrics :: "panic + 'a Metric list"
  spawned :: bool

definition Collect_emit ::
  "Time \<Rightarrow> 'a::{plus,zero} CloudCostResponse option \<Rightarrow> bool \<Rightarrow> 'a Collector
     \<Rightarrow> 'a scrape_result \<times> 'a Collector" where
  "Collect_emit now d go c =
     (let c = c\<lparr>cacheAge := Age now (cache c)\<rparr>
      in (\<lparr>served = d,
           metrics = (case d of
                        None \<Rightarrow> Inr []
                      | Some resp \<Rightarrow> emitCostMetrics (emitKubePercentMetrics c) [] resp),
           spawned = go\<rparr>,
          c))"

text \<open>
  One whole call: the clock is read at \<open>started\<close> for \<^verbatim>\<open>cache.Get\<close> and at \<open>ended\<close> for
  \<^verbatim>\<open>cache.Age\<close>, and a miss fetches in the run \<open>fetch\<close>.
\<close>

record 'a scrape_run =
  started :: Time
  fetch :: "'a fetch_run"
  ended :: Time

definition Collect ::
  "'a::{plus,zero} scrape_run \<Rightarrow> 'a Collector \<Rightarrow> 'a scrape_result \<times> 'a Collector" where
  "Collect r c =
     (case Collect_get (started r) c of ((d, miss, go), c) \<Rightarrow>
        (case (if miss then fetchAndCache (fetch r) c else (d, c)) of (d, c) \<Rightarrow>
           Collect_emit (ended r) d go c))"

subsection \<open>Concurrent scrapes and the background refresh\<close>

text \<open>
  Scrapes run in threads; the goroutines started by \<^verbatim>\<open>Collect\<close> run beside them. A
  scrape is idle, waits for the collector's mutex, holds it and is about to read the
  cache, holds it with its snapshot decided (\<open>Decided d miss go\<close>, where \<open>miss\<close> says that
  the synchronous fetch is still to come), or has returned. A refresh goroutine is
  fetching (inside \<^verbatim>\<open>refreshCache\<close>), has fetched and waits for the mutex, holds the
  mutex with the flag still set, holds the mutex with the flag cleared, or has released
  it and finished. A refresh is in flight from its start until it has cleared the flag.
  \<open>refreshes\<close> lists every goroutine ever started, in the order of their start, so its
  length is the number of background fetches triggered so far.
\<close>

datatype 'a scrape_pc =
    Idle
  | Waiting
  | Running
  | Decided "'a CloudCostResponse option" bool bool
  | Returned "'a scrape_result"

datatype refresh_pc = Fetching | Fetched | Locked | Cleared | Finished

record 'a System =
  collector :: "'a Collector"
  mu :: bool
  scrapes :: "nat \<Rightarrow> 'a scrape_pc"
  refreshes :: "refresh_pc list"




text \<open>
  The atomic steps, which interleave in any order. A scrape is called (\<open>Invoke\<close>), takes
  the mutex when it is free (\<open>Lock\<close>), reads the cache and branches (\<open>Decide\<close>), fetches
  synchronously after a miss (\<open>SyncFetch\<close>), and sends its metrics and releases the mutex
  on return (\<open>Finish\<close>). A goroutine fetches without the mutex (\<open>RefreshFetch\<close>), then takes
  the mutex when it is free (\<open>RefreshLock\<close>), clears the flag (\<open>RefreshClear\<close>) and
  releases the mutex (\<open>RefreshUnlock\<close>). The flag is read and written under the mutex
  only; each cache operation runs under the cache's own lock; a fetch touches the shared
  state when it ends.
\<close>

datatype 'a action =
    Invoke nat
  | Lock nat
  | Decide nat Time
  | SyncFetch nat "'a fetch_run"
  | Finish nat Time
  | RefreshFetch nat "'a fetch_run"
  | RefreshLock nat
  | RefreshClear nat
  | RefreshUnlock nat

definition step :: "'a::{plus,zero} action \<Rightarrow> 'a System \<Rightarrow> 'a System option" where
  "step a s =
     (case a of
        Invoke t \<Rightarrow>
          (case scrapes s t of
             Idle \<Rightarrow> Some (s\<lparr>scrapes := (scrapes s)(t := Waiting)\<rparr>)
           | _ \<Rightarrow> None)
      | Lock t \<Rightarrow>
          (case scrapes s t of
             Waiting \<Rightarrow>
               if mu s then None
               else Some (s\<lparr>mu := True, scrapes := (scrapes s)(t := Running)\<rparr>)
           | _ \<Rightarrow> None)
      | Decide t now \<Rightarrow>
          (case scrapes s t of
             Running \<Rightarrow>
               (case Collect_get now (collector s) of ((d, miss, go), c) \<Rightarrow>
                  Some (s\<lparr>collector := c,
                          scrapes := (scrapes s)(t := Decided d miss go),
                          refreshes := refreshes s @ (if go then [Fetching] else [])\<rparr>))
           | _ \<Rightarrow> None)
      | SyncFetch t r \<Rightarrow>
          (case scrapes s t of
             Decided d miss go \<Rightarrow>
               if miss then
                 (case fetchAndCache r (collector s) of (d, c) \<Rightarrow>
                    Some (s\<lparr>collector := c, scrapes := (scrapes s)(t := Decided d False go)\<rparr>))
               else None
           | _ \<Rightarrow> None)
      | Finish t now \<Rightarrow>
          (case scrapes s t of
             Decided d miss go \<Rightarrow>
               if miss then None
               else
                 (case Collect_emit now d go (collector s) of (res, c) \<Rightarrow>
                    Some (s\<lparr>collector := c, mu := False,
                            scrapes := (scrapes s)(t := Returned res)\<rparr>))
           | _ \<Rightarrow> None)
      | RefreshFetch i r \<Rightarrow>
          (if i < length (refreshes s) \<and> refreshes s ! i = Fetching
           then Some (s\<lparr>collector := refreshCache r (collector s),
                        refreshes := (refreshes s)[i := Fetched]\<rparr>)
           else None)
      | RefreshLock i \<Rightarrow>
          (if i < length (refreshes s) \<and> refreshes s ! i = Fetched \<and> \<not> mu s
           then Some (s\<lparr>mu := True, refreshes := (refreshes s)[i := Locked]\<rparr>)
           else None)
      | RefreshClear i \<Rightarrow>
          (if i < length (refreshes s) \<and> refreshes s ! i = Locked
           then Some (s\<lparr>collector := (collector s)\<lparr>refreshing := False\<rparr>,
                        refreshes := (refreshes s)[i := Cleared]\<rparr>)
           else None)
      | RefreshUnlock i \<Rightarrow>
          (if i < length (refreshes s) \<and> refreshes s ! i = Cleared
           then Some (s\<lparr>mu := False, refreshes := (refreshes s)[i := Finished]\<rparr>)
           else None))"

fun run :: "'a::{plus,zero} action list \<Rightarrow> 'a System \<Rightarrow> 'a System option" where
  "run [] s = Some s"
| "run (a # as) s = (case step a s of None \<Rightarrow> None | Some s' \<Rightarrow> run as s')"

definition New_Collector :: "'a CloudCostResponse Cache \<Rightarrow> int \<Rightarrow> bool \<Rightarrow> 'a Collector" where
  "New_Collector ca retries kube =
     \<lparr>cache = ca, client_maxRetries = retries, emitKubePercentMetrics = kube,
      scrapeDuration = [], scrapeErrors = 0, cacheHits = 0, cacheMisses = 0, cacheAge = 0,
      lastSuccessfulScrape = 0, refreshing = False\<rparr>"




text \<open>
  A collector whose cache holds a stale snapshot at the instants 50 to 60 (fetched at
  0, ttl 10, maxStale 100), runs of a scrape and of a fetch against an endpoint that
  answers 500 with no retries configured, and a fetch against an endpoint that answers
  200 with a body that decodes to the empty response.
\<close>

definition empty_response :: "rat CloudCostResponse" where
  "empty_response = \<lparr>Code = 200, Data = \<lparr>Sets = []\<rparr>\<rparr>"

definition stale_collector :: "rat Collector" where
  "stale_collector =
     New_Collector
       \<lparr>data = Some empty_response, fetchedAt = 0, ttl = 10, maxStale = 100,
        hits = 0, misses = 0\<rparr> 0 False"

definition failing_fetch :: "Time \<Rightarrow> rat fetch_run" where
  "failing_fetch t = \<lparr>world = always_500, elapsed = 1000, finished = t\<rparr>"



definition scrape_at :: "Time \<Rightarrow> rat scrape_run" where
  "scrape_at t = \<lparr>started = t, fetch = failing_fetch t, ended = t\<rparr>"








section \<open>Properties of the cache\<close>

lemma sint_word_of_int_Duration:
  "- (2 ^ 63) \<le> d \<Longrightarrow> d < 2 ^ 63 \<Longrightarrow> sint (word_of_int d :: Duration) = d"
  by (simp add: sint_sbintrunc' signed_take_bit_int_eq_self_iff)

lemma sint_time_Sub:
  "sint (time_Sub t u) = max minDuration (min maxDuration (t - u))"
proof -
  define d where "d = t - u"
  have "sint (if d > maxDuration then word_of_int maxDuration
              else if d < minDuration then word_of_int minDuration
              else (word_of_int d :: Duration))
        = max minDuration (min maxDuration d)"
    by (auto simp: maxDuration_def minDuration_def sint_word_of_int_Duration)
  then show ?thesis
    unfolding time_Sub_def Let_def d_def .
qed

lemma sint_add_no_overflow:
  fixes a b :: Duration
  assumes "- (2 ^ 63) \<le> sint a + sint b" "sint a + sint b < 2 ^ 63"
  shows "sint (a + b) = sint a + sint b"
  using assms by (simp add: sint_word_add signed_take_bit_int_eq_self_iff)

text \<open>
  What \<open>Get\<close> computes for any configuration: the stale window ends at the 64-bit sum
  \<open>ttl + maxStale\<close>, which wraps around, and the fresh test comes first.
\<close>

lemma Get_unfold:
  "Get now c =
     (if data c = None then ((None, False, False), c\<lparr>misses := misses c + 1\<rparr>)
      else if sint (time_Since now (fetchedAt c)) \<le> sint (ttl c)
        then ((data c, False, True), c\<lparr>hits := hits c + 1\<rparr>)
      else if sint (time_Since now (fetchedAt c)) \<le> sint (ttl c + maxStale c)
        then ((data c, True, True), c\<lparr>hits := hits c + 1\<rparr>)
      else ((None, False, False), c\<lparr>misses := misses c + 1\<rparr>))"
  by (auto simp: Get_def Let_def word_sle_eq split: option.splits)

text \<open>
  Claim C1, as amended. For every cache state, every \<open>ttl\<close> and every \<open>maxStale \<ge> 0\<close>
  whose sum stays below the largest Duration, \<open>Get\<close> classifies by the age
  \<open>a = now - fetchedAt\<close>: with no entry it returns (nil, false, false) and counts a miss;
  with \<open>a \<le> ttl\<close> it returns the snapshot as fresh and counts a hit; with
  \<open>ttl < a \<le> ttl + maxStale\<close> it returns the snapshot as stale and counts a hit; with
  \<open>a > ttl + maxStale\<close> it returns (nil, false, false) and counts a miss.
\<close>

theorem Get_classification:
  fixes c :: "'r Cache"
  assumes "0 \<le> sint (maxStale c)"
    and "sint (ttl c) + sint (maxStale c) < maxDuration"
  shows "(data c = None \<longrightarrow>
            Get now c = ((None, False, False), c\<lparr>misses := misses c + 1\<rparr>))
       \<and> (\<forall>d. data c = Some d \<and> now - fetchedAt c \<le> sint (ttl c) \<longrightarrow>
            Get now c = ((Some d, False, True), c\<lparr>hits := hits c + 1\<rparr>))
       \<and> (\<forall>d. data c = Some d \<and> sint (ttl c) < now - fetchedAt c
              \<and> now - fetchedAt c \<le> sint (ttl c) + sint (maxStale c) \<longrightarrow>
            Get now c = ((Some d, True, True), c\<lparr>hits := hits c + 1\<rparr>))
       \<and> (data c \<noteq> None \<and> now - fetchedAt c > sint (ttl c) + sint (maxStale c) \<longrightarrow>
            Get now c = ((None, False, False), c\<lparr>misses := misses c + 1\<rparr>))"
proof -
  have lo: "- (2 ^ 63) \<le> sint (ttl c)" and hi: "sint (ttl c) < 2 ^ 63"
    using sint_ge [of "ttl c"] sint_lt [of "ttl c"] by simp_all
  have sum: "sint (ttl c + maxStale c) = sint (ttl c) + sint (maxStale c)"
    using assms lo by (intro sint_add_no_overflow) (simp_all add: maxDuration_def)
  show ?thesis
    using assms lo hi
    by (auto simp: Get_def Let_def time_Since_def word_sle_eq sint_time_Sub sum
        maxDuration_def minDuration_def split: option.splits)
qed

theorem Get_classification_witness:
  "Get 12 \<lparr>data = Some (), fetchedAt = 0, ttl = 10, maxStale = 5, hits = 0, misses = 0\<rparr>
     = ((Some (), True, True),
        \<lparr>data = Some (), fetchedAt = 0, ttl = 10, maxStale = 5, hits = 1, misses = 0\<rparr>)
   \<and> Get 10 \<lparr>data = Some (), fetchedAt = 0, ttl = 10, maxStale = 5, hits = 0, misses = 0\<rparr>
     = ((Some (), False, True),
        \<lparr>data = Some (), fetchedAt = 0, ttl = 10, maxStale = 5, hits = 1, misses = 0\<rparr>)
   \<and> Get 16 \<lparr>data = Some (), fetchedAt = 0, ttl = 10, maxStale = 5, hits = 0, misses = 0\<rparr>
     = ((None, False, False),
        \<lparr>data = Some (), fetchedAt = 0, ttl = 10, maxStale = 5, hits = 0, misses = 1\<rparr>)"
  using Get_classification
    [of "\<lparr>data = Some (), fetchedAt = 0, ttl = 10, maxStale = 5, hits = 0, misses = 0\<rparr>" 12]
    Get_classification
    [of "\<lparr>data = Some (), fetchedAt = 0, ttl = 10, maxStale = 5, hits = 0, misses = 0\<rparr>" 10]
    Get_classification
    [of "\<lparr>data = Some (), fetchedAt = 0, ttl = 10, maxStale = 5, hits = 0, misses = 0\<rparr>" 16]
  by (simp add: maxDuration_def)

text \<open>
  The claim as written, for every \<open>ttl\<close> and \<open>maxStale\<close>, fails in two ways. With a
  negative \<open>maxStale\<close> (ttl 10, maxStale -5, age 7) the age is beyond \<open>ttl + maxStale\<close>,
  yet the entry is served as fresh. With a sum beyond the Duration range (ttl and
  maxStale both \<open>2 ^ 62\<close>, age \<open>2 ^ 62 + 1\<close>) the age is inside the stale window, yet
  the entry is reported as absent, since the 64-bit sum is negative.
\<close>

theorem Get_classification_counterexample:
  "sint (10 :: Duration) + sint (- 5 :: Duration) < 7 - 0
   \<and> fst (Get 7 \<lparr>data = Some (), fetchedAt = 0, ttl = 10, maxStale = - 5,
                   hits = 0, misses = 0\<rparr>) = (Some (), False, True)
   \<and> sint (2 ^ 62 :: Duration) < (2 ^ 62 + 1) - 0
   \<and> (2 ^ 62 + 1) - 0 \<le> sint (2 ^ 62 :: Duration) + sint (2 ^ 62 :: Duration)
   \<and> fst (Get (2 ^ 62 + 1) \<lparr>data = Some (), fetchedAt = 0, ttl = 2 ^ 62, maxStale = 2 ^ 62,
                   hits = 0, misses = 0\<rparr>) = (None, False, False)"
  by (simp add: Get_unfold time_Since_def sint_time_Sub maxDuration_def minDuration_def)

section \<open>Properties of the client\<close>

lemma failing_doFetch: "failing x \<Longrightarrow> \<exists>e. doFetch um x = Inl e"
  by (cases x) (auto simp: failing_def doFetch_def)

lemma retry_loop_exhausted:
  assumes "\<forall>i. a \<le> i \<and> i \<le> mr \<longrightarrow> failing (exchange env i)"
    and "\<forall>i. ctx_done env i = None \<and> ctx_err env i = None"
    and "a \<le> mr + 1"
  shows "\<exists>cause. retry_loop env mr a l =
            (Inl (AfterRetries mr cause), schedule a (nat (mr + 1 - a)))
          \<and> cause = (if a \<le> mr then
                (case doFetch (unmarshal env) (exchange env mr) of
                   Inl e \<Rightarrow> Some e | Inr _ \<Rightarrow> None) else l)"
  using assms
proof (induction env mr a l rule: retry_loop.induct)
  case (1 env maxRetries attempt lastErr)
  show ?case
  proof (cases "attempt \<le> maxRetries")
    case False
    with "1.prems" have "attempt = maxRetries + 1" by simp
    then show ?thesis by (simp add: retry_loop.simps)
  next
    case True
    from "1.prems" True obtain err where
      err: "doFetch (unmarshal env) (exchange env attempt) = Inl err"
      using failing_doFetch by blast
    have n: "nat (maxRetries + 1 - attempt) = Suc (nat (maxRetries + 1 - (attempt + 1)))"
      using True by simp
    have IH: "\<exists>cause. retry_loop env maxRetries (attempt + 1) (Some err) =
            (Inl (AfterRetries maxRetries cause),
             schedule (attempt + 1) (nat (maxRetries + 1 - (attempt + 1))))
          \<and> cause = (if attempt + 1 \<le> maxRetries then
                (case doFetch (unmarshal env) (exchange env maxRetries) of
                   Inl e \<Rightarrow> Some e | Inr _ \<Rightarrow> None) else Some err)"
      using "1.IH" [OF True _ _ err] "1.prems" True by simp
    then obtain cause where
      c1: "retry_loop env maxRetries (attempt + 1) (Some err) =
            (Inl (AfterRetries maxRetries cause),
             schedule (attempt + 1) (nat (maxRetries + 1 - (attempt + 1))))"
      and c2: "cause = (if attempt + 1 \<le> maxRetries then
                (case doFetch (unmarshal env) (exchange env maxRetries) of
                   Inl e \<Rightarrow> Some e | Inr _ \<Rightarrow> None) else Some err)"
      by blast
    have c3: "cause = (case doFetch (unmarshal env) (exchange env maxRetries) of
                   Inl e \<Rightarrow> Some e | Inr _ \<Rightarrow> None)"
    proof (cases "attempt + 1 \<le> maxRetries")
      case True
      with c2 show ?thesis by simp
    next
      case False
      with \<open>attempt \<le> maxRetries\<close> have "attempt = maxRetries" by simp
      with c2 err show ?thesis by simp
    qed
    show ?thesis
      using True "1.prems" err c1 c3
      by (subst retry_loop.simps) (simp add: n)
  qed
qed

lemma requests_schedule: "requests (schedule a n) = [a..a + int n - 1]"
proof (induction n arbitrary: a)
  case 0
  then show ?case by simp
next
  case (Suc n)
  have "[a..a + int (Suc n) - 1] = a # [a + 1..a + 1 + int n - 1]"
    by (subst upto_rec1) simp_all
  with Suc show ?case by simp
qed

lemma backoffs_schedule:
  "0 < a \<Longrightarrow> backoffs (schedule a n) = map (\<lambda>k. backoff (a + int k)) [0..<n]"
proof (induction n arbitrary: a)
  case 0
  then show ?case by simp
next
  case (Suc n)
  have "map (\<lambda>k. backoff (a + int k)) [0..<Suc n]
        = backoff a # map (\<lambda>k. backoff (a + 1 + int k)) [0..<n]"
    by (simp add: upt_conv_Cons map_Suc_upt [symmetric] del: upt_Suc) (simp add: add.commute add.left_commute)
  with Suc show ?case by simp
qed

lemma backoffs_schedule_0:
  "backoffs (schedule 0 (Suc n)) = map (\<lambda>k. backoff (1 + int k)) [0..<n]"
  by (simp add: backoffs_schedule)

lemma sint_backoff:
  assumes "k \<le> 33"
  shows "sint (backoff (1 + int k)) = 2 ^ k * 1000000000"
proof -
  have "(2::int) ^ k \<le> 2 ^ 33"
    using assms by (intro power_increasing) simp_all
  then have b: "(2::int) ^ k * 1000000000 < 2 ^ 63" by simp
  have "backoff (1 + int k) = word_of_int (2 ^ k * 1000000000)"
    by (simp add: backoff_def Second_def push_bit_eq_mult)
  moreover have "- (2 ^ 63) \<le> (2::int) ^ k * 1000000000"
    by (rule order_trans [of _ 0]) simp_all
  ultimately show ?thesis
    using b by (simp only: sint_word_of_int_Duration)
qed

lemma itoa_2: "itoa 2 = ''2''"
  by (simp add: itoa_def itoa_nat.simps)

lemma itoa_500: "itoa 500 = ''500''"
  by code_simp

text \<open>
  Claim C5, as amended. With a well-formed base URL and \<open>0 \<le> maxRetries \<le> 34\<close>, when
  every attempt fails with a transport error or a non-2xx status and no cancellation is
  seen, \<open>FetchCloudCosts\<close> makes exactly \<open>1 + maxRetries\<close> requests (attempts
  \<open>0 .. maxRetries\<close>), sleeps \<open>2 ^ k\<close> seconds before retry \<open>k + 1\<close> (1 s, 2 s, 4 s, ...), and
  returns one error, "after maxRetries retries: cause", that wraps the error of the last
  attempt.
\<close>

theorem FetchCloudCosts_exhausts_retries:
  assumes "endpoint env = Inr u"
    and "0 \<le> maxRetries" and "maxRetries \<le> 34"
    and "\<forall>a. 0 \<le> a \<and> a \<le> maxRetries \<longrightarrow> failing (exchange env a)"
    and "\<forall>a. ctx_done env a = None \<and> ctx_err env a = None"
  shows "\<exists>cause evs.
           doFetch (unmarshal env) (exchange env maxRetries) = Inl cause
         \<and> FetchCloudCosts env maxRetries = (Inl (AfterRetries maxRetries (Some cause)), evs)
         \<and> Unwrap (AfterRetries maxRetries (Some cause)) = Some cause
         \<and> Error (AfterRetries maxRetries (Some cause))
             = ''after '' @ itoa maxRetries @ '' retries: '' @ Error cause
         \<and> evs = schedule 0 (nat (1 + maxRetries))
         \<and> requests evs = [0..maxRetries]
         \<and> map sint (backoffs evs) = map (\<lambda>k. 2 ^ k * 1000000000) [0..<nat maxRetries]"
proof -
  from assms obtain cause where
    cause: "doFetch (unmarshal env) (exchange env maxRetries) = Inl cause"
    using failing_doFetch by blast
  have "\<exists>c. retry_loop env maxRetries 0 None =
            (Inl (AfterRetries maxRetries c), schedule 0 (nat (maxRetries + 1 - 0)))
          \<and> c = (if 0 \<le> maxRetries then
                (case doFetch (unmarshal env) (exchange env maxRetries) of
                   Inl e \<Rightarrow> Some e | Inr _ \<Rightarrow> None) else None)"
    using assms by (intro retry_loop_exhausted) simp_all
  with cause assms have run: "FetchCloudCosts env maxRetries =
      (Inl (AfterRetries maxRetries (Some cause)), schedule 0 (nat (1 + maxRetries)))"
    by (simp add: FetchCloudCosts_def add.commute)
  have n: "nat (1 + maxRetries) = Suc (nat maxRetries)"
    using assms by simp
  have reqs: "requests (schedule 0 (nat (1 + maxRetries))) = [0..maxRetries]"
    using assms by (simp add: requests_schedule)
  have "map sint (backoffs (schedule 0 (nat (1 + maxRetries))))
        = map (\<lambda>k. sint (backoff (1 + int k))) [0..<nat maxRetries]"
    by (simp add: n backoffs_schedule_0 del: schedule.simps)
  also have "\<dots> = map (\<lambda>k. 2 ^ k * 1000000000) [0..<nat maxRetries]"
    using assms by (intro map_cong refl sint_backoff) auto
  finally show ?thesis
    using cause run reqs by simp
qed

theorem FetchCloudCosts_exhausts_retries_witness:
  "FetchCloudCosts (always_500 :: unit fetch_env) 2
     = (Inl (AfterRetries 2 (Some (UnexpectedStatus 500 ''internal error''))),
        [Request 0, Backoff 1000000000, Request 1, Backoff 2000000000, Request 2])
   \<and> Error (AfterRetries 2 (Some (UnexpectedStatus 500 ''internal error'')))
     = ''after 2 retries: unexpected status 500: internal error''"
proof -
  have e: "endpoint (always_500 :: unit fetch_env) = Inr ''http://opencost:9003/cloudCost?window=1d''"
    by (simp add: always_500_def)
  have f: "\<forall>a. 0 \<le> a \<and> a \<le> 2 \<longrightarrow> failing (exchange (always_500 :: unit fetch_env) a)"
    by (simp add: always_500_def failing_def)
  have c: "\<forall>a. ctx_done (always_500 :: unit fetch_env) a = None \<and> ctx_err always_500 a = None"
    by (simp add: always_500_def)
  have d: "doFetch (unmarshal (always_500 :: unit fetch_env)) (exchange always_500 2)
           = Inl (UnexpectedStatus 500 ''internal error'')"
    by (simp add: always_500_def doFetch_def)
  have s: "schedule 0 (nat (1 + 2))
           = [Request 0, Backoff 1000000000, Request 1, Backoff 2000000000, Request 2]"
    by (simp add: numeral_3_eq_3 backoff_def Second_def)
  from FetchCloudCosts_exhausts_retries [OF e _ _ f c]
  show ?thesis
    unfolding d s by (auto simp: itoa_2 itoa_500)
qed

text \<open>
  The claim as written, for every \<open>maxRetries\<close>, fails outside \<open>0 .. 34\<close>. With
  \<open>maxRetries = -1\<close> the loop body never runs and the error wraps no cause; with
  \<open>maxRetries = -2\<close> no request is made, where \<open>1 + maxRetries\<close> is \<open>-1\<close>. With
  \<open>maxRetries = 35\<close> all 36 requests are made, but the backoff before the last one is the
  wrapped product \<open>2 ^ 34 * 10 ^ 9\<close>, a negative Duration, not \<open>2 ^ 34\<close> seconds.
\<close>

theorem FetchCloudCosts_exhausts_retries_counterexample:
  "fst (FetchCloudCosts (always_500 :: unit fetch_env) (- 1)) = Inl (AfterRetries (- 1) None)
   \<and> requests (snd (FetchCloudCosts (always_500 :: unit fetch_env) (- 2))) = []
   \<and> length (requests (snd (FetchCloudCosts (always_500 :: unit fetch_env) 35))) = 36
   \<and> sint (last (backoffs (snd (FetchCloudCosts (always_500 :: unit fetch_env) 35)))) = - 1266874889709551616"
  by code_simp

lemma schedule_snoc:
  "schedule a (Suc n)
   = schedule a n @ (if a + int n > 0 then [Backoff (backoff (a + int n))] else [])
       @ [Request (a + int n)]"
proof (induction n arbitrary: a)
  case 0
  then show ?case by simp
next
  case (Suc n)
  have "schedule a (Suc (Suc n))
        = (if a > 0 then [Backoff (backoff a)] else []) @ Request a # schedule (a + 1) (Suc n)"
    by simp
  also have "schedule (a + 1) (Suc n)
        = schedule (a + 1) n
          @ (if a + 1 + int n > 0 then [Backoff (backoff (a + 1 + int n))] else [])
          @ [Request (a + 1 + int n)]"
    by (rule Suc.IH)
  finally show ?case
    by (simp add: add.commute add.left_commute)
qed

lemma retry_loop_prefix:
  assumes "a \<le> k" and "k \<le> mr"
    and "\<forall>j. a \<le> j \<and> j < k \<longrightarrow> passes env j"
  shows "\<exists>l'. retry_loop env mr a l
           = (fst (retry_loop env mr k l'),
              schedule a (nat (k - a)) @ snd (retry_loop env mr k l'))"
  using assms
proof (induction "nat (k - a)" arbitrary: a l)
  case 0
  then have "a = k" by simp
  then show ?case by (intro exI [of _ l]) simp
next
  case (Suc n)
  then have lt: "a < k" and le: "a \<le> mr" by simp_all
  with Suc.prems have p: "passes env a" by simp
  then obtain err where err: "doFetch (unmarshal env) (exchange env a) = Inl err"
    and ce: "ctx_err env a = None" and cd: "a > 0 \<longrightarrow> ctx_done env a = None"
    by (auto simp: passes_def isl_def)
  have n: "n = nat (k - (a + 1))" using Suc.hyps(2) by simp
  have "\<exists>l'. retry_loop env mr (a + 1) (Some err)
           = (fst (retry_loop env mr k l'),
              schedule (a + 1) (nat (k - (a + 1))) @ snd (retry_loop env mr k l'))"
    using Suc.prems lt by (intro Suc.hyps(1) [OF n]) simp_all
  then obtain l' where rec: "retry_loop env mr (a + 1) (Some err)
           = (fst (retry_loop env mr k l'),
              schedule (a + 1) (nat (k - (a + 1))) @ snd (retry_loop env mr k l'))"
    by blast
  have m: "nat (k - a) = Suc (nat (k - (a + 1)))" using lt by simp
  have "retry_loop env mr a l
           = (fst (retry_loop env mr k l'),
              schedule a (nat (k - a)) @ snd (retry_loop env mr k l'))"
    using le err ce cd rec
    by (subst retry_loop.simps) (simp add: m)
  then show ?case by blast
qed

text \<open>
  Claim C9. Let the loop reach attempt \<open>k\<close> (every earlier attempt failed and no
  cancellation was seen). If the context is done during the backoff before attempt \<open>k\<close>,
  the call returns the context's error after the requests \<open>0 .. k - 1\<close>: attempt \<open>k\<close> is
  never made. If attempt \<open>k\<close> fails and the context then reports an error, the call
  returns the context's error after the requests \<open>0 .. k\<close>: no backoff or request
  follows. In both cases the result is the cancellation itself, not the error of the
  last request and not the "after n retries" error.
\<close>

theorem FetchCloudCosts_cancellation:
  assumes "endpoint env = Inr u"
    and "0 \<le> k" and "k \<le> maxRetries"
    and "\<forall>j. 0 \<le> j \<and> j < k \<longrightarrow> passes env j"
  shows "(0 < k \<and> ctx_done env k = Some e \<longrightarrow>
            FetchCloudCosts env maxRetries
              = (Inl (ContextError e), schedule 0 (nat k) @ [ContextDone e])
            \<and> requests (snd (FetchCloudCosts env maxRetries)) = [0..k - 1])
       \<and> ((0 < k \<longrightarrow> ctx_done env k = None)
            \<and> doFetch (unmarshal env) (exchange env k) = Inl err
            \<and> ctx_err env k = Some e \<longrightarrow>
            FetchCloudCosts env maxRetries
              = (Inl (ContextError e), schedule 0 (nat k + 1) @ [ContextDone e])
            \<and> requests (snd (FetchCloudCosts env maxRetries)) = [0..k])"
proof -
  obtain l' where pre: "retry_loop env maxRetries 0 None
           = (fst (retry_loop env maxRetries k l'),
              schedule 0 (nat (k - 0)) @ snd (retry_loop env maxRetries k l'))"
    using retry_loop_prefix [OF assms(2) assms(3), of env None] assms(4) by blast
  have run: "FetchCloudCosts env maxRetries = retry_loop env maxRetries 0 None"
    using assms(1) by (simp add: FetchCloudCosts_def)
  have req_app: "\<And>xs ys. requests (xs @ ys) = requests xs @ requests ys"
  proof -
    fix xs ys show "requests (xs @ ys) = requests xs @ requests ys"
      by (induction xs rule: requests.induct) simp_all
  qed
  have A: "FetchCloudCosts env maxRetries
              = (Inl (ContextError e), schedule 0 (nat k) @ [ContextDone e])
            \<and> requests (snd (FetchCloudCosts env maxRetries)) = [0..k - 1]"
    if "0 < k" "ctx_done env k = Some e"
  proof -
    have "retry_loop env maxRetries k l' = (Inl (ContextError e), [ContextDone e])"
      using that assms(3) by (subst retry_loop.simps) simp
    with pre run have "FetchCloudCosts env maxRetries
              = (Inl (ContextError e), schedule 0 (nat k) @ [ContextDone e])"
      by simp
    then show ?thesis
      using assms(2) by (simp add: req_app requests_schedule)
  qed
  have B: "FetchCloudCosts env maxRetries
              = (Inl (ContextError e), schedule 0 (nat k + 1) @ [ContextDone e])
            \<and> requests (snd (FetchCloudCosts env maxRetries)) = [0..k]"
    if "0 < k \<longrightarrow> ctx_done env k = None"
      "doFetch (unmarshal env) (exchange env k) = Inl err" "ctx_err env k = Some e"
  proof -
    have "retry_loop env maxRetries k l'
          = (Inl (ContextError e),
             (if k > 0 then [Backoff (backoff k)] else []) @ [Request k, ContextDone e])"
      using that assms(3) by (subst retry_loop.simps) simp
    with pre run have "FetchCloudCosts env maxRetries
              = (Inl (ContextError e), schedule 0 (nat k + 1) @ [ContextDone e])"
      using assms(2) by (simp add: schedule_snoc del: schedule.simps)
    then show ?thesis
      using assms(2) by (simp add: req_app requests_schedule del: schedule.simps)
  qed
  from A B show ?thesis by blast
qed

theorem FetchCloudCosts_cancellation_witness:
  "FetchCloudCosts (canceled_in_backoff :: unit fetch_env) 3
     = (Inl (ContextError Canceled), [Request 0, ContextDone Canceled])
   \<and> FetchCloudCosts (deadline_in_request :: unit fetch_env) 3
     = (Inl (ContextError DeadlineExceeded), [Request 0, ContextDone DeadlineExceeded])"
proof -
  have e1: "endpoint (canceled_in_backoff :: unit fetch_env) = Inr ''http://opencost:9003/cloudCost?window=1d''"
    and e2: "endpoint (deadline_in_request :: unit fetch_env) = Inr ''http://opencost:9003/cloudCost?window=1d''"
    by (simp_all add: canceled_in_backoff_def deadline_in_request_def always_500_def)
  have p1: "\<forall>j. 0 \<le> j \<and> j < 1 \<longrightarrow> passes (canceled_in_backoff :: unit fetch_env) j"
    by (simp add: passes_def canceled_in_backoff_def always_500_def doFetch_def)
  have p2: "\<forall>j. (0::int) \<le> j \<and> j < 0 \<longrightarrow> passes (deadline_in_request :: unit fetch_env) j"
    by auto
  have d: "doFetch (unmarshal (deadline_in_request :: unit fetch_env)) (exchange deadline_in_request 0)
           = Inl (UnexpectedStatus 500 ''internal error'')"
    by (simp add: deadline_in_request_def always_500_def doFetch_def)
  from FetchCloudCosts_cancellation [OF e1 _ _ p1, of 3 Canceled]
    FetchCloudCosts_cancellation
      [OF e2 _ _ p2, of 3 DeadlineExceeded "UnexpectedStatus 500 ''internal error''"]
  show ?thesis
    using d by (simp add: canceled_in_backoff_def deadline_in_request_def always_500_def)
qed

section \<open>Properties of the aggregation and the emission\<close>

lemma fold_add_item_pairs:
  "fold (\<lambda>(ident, item). add_item item) ps agg = fold add_item (map snd ps) agg"
  by (induction ps arbitrary: agg) (auto simp: case_prod_beta)

lemma aggregate_fold: "aggregate resp = fold add_item (all_items resp) []"
proof -
  have "fold (\<lambda>s aggregated. fold (\<lambda>(ident, item). add_item item) (CloudCosts s) aggregated) ss agg
        = fold add_item (concat (map (\<lambda>s. map snd (CloudCosts s)) ss)) agg" for ss agg
    by (induction ss arbitrary: agg) (simp_all add: fold_add_item_pairs)
  then show ?thesis by (simp add: aggregate_def all_items_def)
qed

lemma map_of_add_item:
  "map_of (add_item item agg) k =
     (if item_key item = k
      then Some (accumulate item (case map_of agg k of None \<Rightarrow> zero_cost | Some c \<Rightarrow> c))
      else map_of agg k)"
  by (simp add: add_item_def Let_def update_conv')

lemma map_of_fold_add_item:
  "map_of (fold add_item items agg) k =
     (if filter (\<lambda>item. item_key item = k) items = [] then map_of agg k
      else Some (fold accumulate (filter (\<lambda>item. item_key item = k) items)
                   (case map_of agg k of None \<Rightarrow> zero_cost | Some c \<Rightarrow> c)))"
proof (induction items arbitrary: agg)
  case Nil
  then show ?case by simp
next
  case (Cons item items)
  show ?case
    by (simp add: Cons.IH map_of_add_item)
qed

lemma keys_add_item: "fst ` set (add_item item agg) = insert (item_key item) (fst ` set agg)"
  by (simp add: add_item_def Let_def dom_update)

lemma keys_fold_add_item:
  "fst ` set (fold add_item items agg) = fst ` set agg \<union> item_key ` set items"
  by (induction items arbitrary: agg) (auto simp: keys_add_item)

lemma distinct_add_item: "distinct (map fst agg) \<Longrightarrow> distinct (map fst (add_item item agg))"
  by (simp add: add_item_def Let_def distinct_update)

lemma distinct_fold_add_item:
  "distinct (map fst agg) \<Longrightarrow> distinct (map fst (fold add_item items agg))"
  by (induction items arbitrary: agg) (auto simp: distinct_add_item)

lemma fold_accumulate_fields:
  "listCost (fold accumulate items c) = foldl (+) (listCost c) (map (\<lambda>i. Cost (ListCost i)) items)"
  "netCost (fold accumulate items c) = foldl (+) (netCost c) (map (\<lambda>i. Cost (NetCost i)) items)"
  "amortizedNetCost (fold accumulate items c)
     = foldl (+) (amortizedNetCost c) (map (\<lambda>i. Cost (AmortizedNetCost i)) items)"
  "invoicedCost (fold accumulate items c)
     = foldl (+) (invoicedCost c) (map (\<lambda>i. Cost (InvoicedCost i)) items)"
  "amortizedCost (fold accumulate items c)
     = foldl (+) (amortizedCost c) (map (\<lambda>i. Cost (AmortizedCost i)) items)"
  by (induction items arbitrary: c) (simp_all add: accumulate_def)

lemma fold_accumulate_kubePercent:
  "items \<noteq> [] \<Longrightarrow>
   kubePercent (fold accumulate items c) = KubernetesPercent (ListCost (last items))"
  by (induction items arbitrary: c) (auto simp: accumulate_def)

lemma aggregate_lookup:
  "map_of (aggregate resp) k =
     (if items_of k resp = [] then None
      else Some (fold accumulate (items_of k resp) zero_cost))"
  by (simp add: aggregate_fold map_of_fold_add_item items_of_def)

lemma aggregate_keys: "fst ` set (aggregate resp) = item_key ` set (all_items resp)"
  by (simp add: aggregate_fold keys_fold_add_item)

lemma aggregate_distinct: "distinct (map fst (aggregate resp))"
  by (simp add: aggregate_fold distinct_fold_add_item)

lemma emitCost_nine:
  "emitCost ch [p, a, svc, cat, r, az, ow, env, cl] t v
     = Inr (ch @ [\<lparr>desc = costTotalDesc, val = v,
                   labelValues = [p, a, svc, cat, t, r, az, ow, env, cl]\<rparr>])"
  by (simp add: emitCost_def MustNewConstMetric_def and_then_def costTotalDesc_def)

lemma emit_key_metrics: "emit_key enabled ch entry = Inr (ch @ key_metrics enabled entry)"
  by (cases entry)
    (simp add: emit_key_def emitCost_nine and_then_def key_metrics_def cost_metric_def
      kube_metric_def MustNewConstMetric_def kubePercentDesc_def)

lemma emit_loop_metrics:
  "emit_loop enabled ch entries = Inr (ch @ concat (map (key_metrics enabled) entries))"
  by (induction entries arbitrary: ch) (simp_all add: emit_key_metrics and_then_def)

lemma emitCostMetrics_metrics:
  "emitCostMetrics enabled ch resp
     = Inr (ch @ concat (map (key_metrics enabled) (aggregate resp)))"
  by (simp add: emitCostMetrics_def emit_loop_metrics)

lemma desc_distinct: "costTotalDesc \<noteq> kubePercentDesc"
  by (simp add: costTotalDesc_def kubePercentDesc_def)

lemma key_labels_inj: "key_labels k = key_labels k' \<longleftrightarrow> k = k'"
  by (cases k, cases k') (auto simp: key_labels_def)

lemma filter_cost_key_metrics:
  "filter (\<lambda>m. desc m = costTotalDesc \<and> identifying m = key_labels k) (key_metrics enabled entry)
   = (if fst entry = k then take 5 (key_metrics enabled entry) else [])"
  using desc_distinct
  by (auto simp: key_metrics_def cost_metric_def kube_metric_def identifying_def
      key_labels_inj [symmetric] key_labels_def)

lemma item_key_ec2 [simp]: "item_key (ec2_item az l c k) = ec2_key az"
  by (simp add: item_key_def ec2_item_def ec2_key_def label_def)

lemma ec2_key_eq [simp]: "ec2_key az = ec2_key az' \<longleftrightarrow> az = az'"
  by (simp add: ec2_key_def)

lemma all_items_two_sets:
  "all_items two_sets =
     [ec2_item ''us-east-1a'' (201 / 2) 80 (1 / 4), ec2_item ''us-east-1b'' 7 5 1,
      ec2_item ''us-east-1a'' 50 40 (1 / 2)]"
  by (simp add: all_items_def two_sets_def)

lemma items_of_two_sets:
  "items_of (ec2_key ''us-east-1a'') two_sets =
     [ec2_item ''us-east-1a'' (201 / 2) 80 (1 / 4), ec2_item ''us-east-1a'' 50 40 (1 / 2)]"
  "items_of (ec2_key ''us-east-1b'') two_sets = [ec2_item ''us-east-1b'' 7 5 1]"
  by (simp_all add: items_of_def all_items_two_sets)

text \<open>
  Claim C2. For every snapshot and every key that some item has, the entry of the key
  holds, for each of the five cost figures, the sum by repeated addition, starting from
  zero, of that figure over the items with this key, across all sets and in the order
  they are visited. The keys of the entries are exactly the keys of the items, one entry
  per key. The addition is any operation \<open>+\<close> with any zero, so the statement holds for
  the rounding addition of \<^verbatim>\<open>float64\<close> as it stands: no law of arithmetic is used. (The
  costs 100.50 and 50.00 and their sum 150.50 are binary fractions, which that addition
  adds exactly, as the rational numbers of the example do.)
\<close>

theorem aggregate_sums_by_key:
  fixes resp :: "'a::{plus,zero} CloudCostResponse"
  shows "(\<forall>k \<in> item_key ` set (all_items resp). \<exists>c.
            map_of (aggregate resp) k = Some c
          \<and> listCost c = foldl (+) 0 (map (\<lambda>i. Cost (ListCost i)) (items_of k resp))
          \<and> netCost c = foldl (+) 0 (map (\<lambda>i. Cost (NetCost i)) (items_of k resp))
          \<and> amortizedNetCost c
              = foldl (+) 0 (map (\<lambda>i. Cost (AmortizedNetCost i)) (items_of k resp))
          \<and> invoicedCost c = foldl (+) 0 (map (\<lambda>i. Cost (InvoicedCost i)) (items_of k resp))
          \<and> amortizedCost c
              = foldl (+) 0 (map (\<lambda>i. Cost (AmortizedCost i)) (items_of k resp)))
       \<and> fst ` set (aggregate resp) = item_key ` set (all_items resp)
       \<and> distinct (map fst (aggregate resp))"
proof -
  have "\<exists>c. map_of (aggregate resp) k = Some c
          \<and> listCost c = foldl (+) 0 (map (\<lambda>i. Cost (ListCost i)) (items_of k resp))
          \<and> netCost c = foldl (+) 0 (map (\<lambda>i. Cost (NetCost i)) (items_of k resp))
          \<and> amortizedNetCost c
              = foldl (+) 0 (map (\<lambda>i. Cost (AmortizedNetCost i)) (items_of k resp))
          \<and> invoicedCost c = foldl (+) 0 (map (\<lambda>i. Cost (InvoicedCost i)) (items_of k resp))
          \<and> amortizedCost c
              = foldl (+) 0 (map (\<lambda>i. Cost (AmortizedCost i)) (items_of k resp))"
    if "k \<in> item_key ` set (all_items resp)" for k
  proof -
    from that have "items_of k resp \<noteq> []"
      by (auto simp: items_of_def filter_empty_conv)
    then have "map_of (aggregate resp) k = Some (fold accumulate (items_of k resp) zero_cost)"
      by (simp add: aggregate_lookup)
    then show ?thesis
      by (simp add: fold_accumulate_fields zero_cost_def)
  qed
  then show ?thesis
    using aggregate_keys [of resp] aggregate_distinct [of resp] by blast
qed

theorem aggregate_sums_by_key_witness:
  "(\<exists>c. map_of (aggregate two_sets) (ec2_key ''us-east-1a'') = Some c \<and> listCost c = 301 / 2
        \<and> netCost c = 120)
   \<and> (\<exists>c. map_of (aggregate two_sets) (ec2_key ''us-east-1b'') = Some c \<and> listCost c = 7)
   \<and> fst ` set (aggregate two_sets) = {ec2_key ''us-east-1a'', ec2_key ''us-east-1b''}"
proof -
  have k: "item_key ` set (all_items two_sets) = {ec2_key ''us-east-1a'', ec2_key ''us-east-1b''}"
    by (auto simp: all_items_two_sets)
  from aggregate_sums_by_key [of two_sets]
  show ?thesis
    unfolding k by (auto simp: items_of_two_sets ec2_item_def)
qed

text \<open>
  Claim C8. For every key and the items that share it, the retained Kubernetes fraction
  is the list-cost fraction of the last of these items, whatever the earlier fractions
  were, while each of the five cost figures is the sum over the same items.
\<close>

theorem kubePercent_last_write_wins:
  fixes resp :: "'a::{plus,zero} CloudCostResponse"
  assumes "items_of k resp \<noteq> []"
  shows "\<exists>c. map_of (aggregate resp) k = Some c
          \<and> kubePercent c = KubernetesPercent (ListCost (last (items_of k resp)))
          \<and> listCost c = foldl (+) 0 (map (\<lambda>i. Cost (ListCost i)) (items_of k resp))
          \<and> netCost c = foldl (+) 0 (map (\<lambda>i. Cost (NetCost i)) (items_of k resp))
          \<and> amortizedNetCost c
              = foldl (+) 0 (map (\<lambda>i. Cost (AmortizedNetCost i)) (items_of k resp))
          \<and> invoicedCost c = foldl (+) 0 (map (\<lambda>i. Cost (InvoicedCost i)) (items_of k resp))
          \<and> amortizedCost c
              = foldl (+) 0 (map (\<lambda>i. Cost (AmortizedCost i)) (items_of k resp))"
proof -
  from assms
  have "map_of (aggregate resp) k = Some (fold accumulate (items_of k resp) zero_cost)"
    by (simp add: aggregate_lookup)
  with assms show ?thesis
    by (simp add: fold_accumulate_fields fold_accumulate_kubePercent zero_cost_def)
qed

theorem kubePercent_last_write_wins_witness:
  "\<exists>c. map_of (aggregate two_sets) (ec2_key ''us-east-1a'') = Some c
      \<and> kubePercent c = 1 / 2 \<and> kubePercent c \<noteq> 1 / 4 + 1 / 2 \<and> listCost c = 201 / 2 + 50"
  using kubePercent_last_write_wins [of "ec2_key ''us-east-1a''" two_sets]
  by (auto simp: items_of_two_sets ec2_item_def)

text \<open>
  Claim C3. \<open>emitCost\<close> puts the cost type between the fourth and the fifth of the nine
  identifying label values, so that the values line up with the label names
  provider_id, account_id, service, category, cost_type, region, availability_zone,
  owner, environment, cluster; and every cost metric that \<open>emitCostMetrics\<close> sends, for
  every key and every cost type, carries its label values in this order.
\<close>

theorem cost_label_order:
  fixes resp :: "'a::{plus,zero} CloudCostResponse"
  shows "emitCost ch [p, a, svc, cat, r, az, ow, env, cl] t v
           = Inr (ch @ [\<lparr>desc = costTotalDesc, val = v,
                         labelValues = [p, a, svc, cat, t, r, az, ow, env, cl]\<rparr>])
       \<and> zip (variableLabels costTotalDesc) [p, a, svc, cat, t, r, az, ow, env, cl]
           = [(''provider_id'', p), (''account_id'', a), (''service'', svc),
              (''category'', cat), (''cost_type'', t), (''region'', r),
              (''availability_zone'', az), (''owner'', ow), (''environment'', env),
              (''cluster'', cl)]
       \<and> (\<exists>out. emitCostMetrics enabled [] resp = Inr out
            \<and> map labelValues (filter (\<lambda>m. desc m = costTotalDesc) out)
                = concat (map (\<lambda>entry.
                    map (\<lambda>costType.
                      [providerID (fst entry), accountID (fst entry), service (fst entry),
                       category (fst entry), costType, region (fst entry),
                       availabilityZone (fst entry), owner (fst entry),
                       environment (fst entry), cluster (fst entry)])
                      [''list'', ''net'', ''amortized_net'', ''invoiced'', ''amortized''])
                    (aggregate resp)))"
proof -
  have "map labelValues (filter (\<lambda>m. desc m = costTotalDesc)
          (concat (map (key_metrics enabled) entries)))
        = concat (map (\<lambda>entry.
                    map (\<lambda>costType.
                      [providerID (fst entry), accountID (fst entry), service (fst entry),
                       category (fst entry), costType, region (fst entry),
                       availabilityZone (fst entry), owner (fst entry),
                       environment (fst entry), cluster (fst entry)])
                      [''list'', ''net'', ''amortized_net'', ''invoiced'', ''amortized''])
                    entries)" for entries :: "(costKey \<times> 'a aggregatedCost) list"
    using desc_distinct
    by (induction entries)
      (auto simp: key_metrics_def cost_metric_def kube_metric_def)
  then show ?thesis
    by (simp add: emitCost_nine emitCostMetrics_metrics costTotalDesc_def)
qed

theorem cost_label_order_witness:
  "emitCost [] [''p'', ''a'', ''svc'', ''cat'', ''region'', ''az'', ''owner'', ''env'', ''cluster'']
     ''net'' (1 :: rat)
   = Inr [\<lparr>desc = costTotalDesc, val = 1,
           labelValues = [''p'', ''a'', ''svc'', ''cat'', ''net'', ''region'', ''az'', ''owner'',
             ''env'', ''cluster'']\<rparr>]"
  using cost_label_order
    [where ch = "[]" and p = "''p''" and a = "''a''" and svc = "''svc''" and cat = "''cat''"
       and r = "''region''" and az = "''az''" and ow = "''owner''" and env = "''env''"
       and cl = "''cluster''" and t = "''net''" and v = "1 :: rat" and resp = one_item
       and enabled = True]
  by simp

lemma aggregate_one_item:
  "aggregate one_item =
     [(ec2_key ''us-east-1a'',
       \<lparr>listCost = 201 / 2, netCost = 703 / 10, amortizedNetCost = 703 / 10,
        invoicedCost = 703 / 10, amortizedCost = 703 / 10, kubePercent = 3 / 4\<rparr>)]"
  by (simp add: aggregate_def one_item_def add_item_def zero_cost_def accumulate_def)
    (simp add: ec2_item_def)

lemma filter_cost_concat:
  assumes "distinct (map fst entries)" and "entry \<in> set entries"
  shows "filter (\<lambda>m. desc m = costTotalDesc \<and> identifying m = key_labels (fst entry))
           (concat (map (key_metrics enabled) entries))
         = take 5 (key_metrics enabled entry)"
  using assms
proof (induction entries)
  case Nil
  then show ?case by simp
next
  case (Cons e entries)
  show ?case
  proof (cases "e = entry")
    case True
    with Cons.prems have "\<forall>e' \<in> set entries. fst e' \<noteq> fst entry"
      by (auto simp: image_iff)
    then have "filter (\<lambda>m. desc m = costTotalDesc \<and> identifying m = key_labels (fst entry))
           (concat (map (key_metrics enabled) entries)) = []"
      by (induction entries) (simp_all add: filter_cost_key_metrics)
    with True show ?thesis
      by (simp add: filter_cost_key_metrics)
  next
    case False
    with Cons.prems have "entry \<in> set entries" and "fst e \<noteq> fst entry"
      by (auto simp: image_iff)
    with Cons show ?thesis
      by (simp add: filter_cost_key_metrics)
  qed
qed

lemma take_5_key_metrics:
  "take 5 (key_metrics enabled entry)
   = map (\<lambda>(costType, v).
        \<lparr>desc = costTotalDesc, val = v,
         labelValues = [providerID (fst entry), accountID (fst entry), service (fst entry),
           category (fst entry), costType, region (fst entry), availabilityZone (fst entry),
           owner (fst entry), environment (fst entry), cluster (fst entry)]\<rparr>)
      [(''list'', listCost (snd entry)), (''net'', netCost (snd entry)),
       (''amortized_net'', amortizedNetCost (snd entry)),
       (''invoiced'', invoicedCost (snd entry)), (''amortized'', amortizedCost (snd entry))]"
  by (simp add: key_metrics_def cost_metric_def)

lemma length_filter_kube:
  "length (filter (\<lambda>m. desc m = kubePercentDesc) (concat (map (key_metrics enabled) entries)))
   = (if enabled then length entries else 0)"
  using desc_distinct
  by (induction entries) (auto simp: key_metrics_def cost_metric_def kube_metric_def)

lemma length_filter_cost:
  "length (filter (\<lambda>m. desc m = costTotalDesc) (concat (map (key_metrics enabled) entries)))
   = 5 * length entries"
  using desc_distinct
  by (induction entries) (auto simp: key_metrics_def cost_metric_def kube_metric_def)

text \<open>
  Claim C7. \<open>emitCostMetrics\<close> never panics. For every entry of the aggregation, the
  loop body sends exactly five cost metrics (list, net, amortized_net, invoiced,
  amortized, each with the entry's nine identifying labels and its cost type) followed
  by exactly one Kubernetes-percent metric tagged amortized_net if the output is
  enabled and by none otherwise; among all the metrics sent, the cost metrics that carry
  the identifying labels of the key are exactly these five. Keys are visited once each.
\<close>

theorem five_costs_per_key:
  fixes resp :: "'a::{plus,zero} CloudCostResponse"
  shows "\<exists>out. emitCostMetrics enabled [] resp = Inr out
     \<and> (\<forall>entry \<in> set (aggregate resp).
          emit_key enabled ch entry
            = Inr (ch
                @ map (\<lambda>(costType, v).
                    \<lparr>desc = costTotalDesc, val = v,
                     labelValues = [providerID (fst entry), accountID (fst entry),
                       service (fst entry), category (fst entry), costType,
                       region (fst entry), availabilityZone (fst entry), owner (fst entry),
                       environment (fst entry), cluster (fst entry)]\<rparr>)
                  [(''list'', listCost (snd entry)), (''net'', netCost (snd entry)),
                   (''amortized_net'', amortizedNetCost (snd entry)),
                   (''invoiced'', invoicedCost (snd entry)),
                   (''amortized'', amortizedCost (snd entry))]
                @ (if enabled
                   then [\<lparr>desc = kubePercentDesc, val = kubePercent (snd entry),
                          labelValues = [providerID (fst entry), accountID (fst entry),
                            service (fst entry), category (fst entry), ''amortized_net'',
                            region (fst entry)]\<rparr>]
                   else []))
        \<and> filter (\<lambda>m. desc m = costTotalDesc \<and> identifying m = key_labels (fst entry)) out
            = map (\<lambda>(costType, v).
                    \<lparr>desc = costTotalDesc, val = v,
                     labelValues = [providerID (fst entry), accountID (fst entry),
                       service (fst entry), category (fst entry), costType,
                       region (fst entry), availabilityZone (fst entry), owner (fst entry),
                       environment (fst entry), cluster (fst entry)]\<rparr>)
                  [(''list'', listCost (snd entry)), (''net'', netCost (snd entry)),
                   (''amortized_net'', amortizedNetCost (snd entry)),
                   (''invoiced'', invoicedCost (snd entry)),
                   (''amortized'', amortizedCost (snd entry))])
     \<and> distinct (map fst (aggregate resp))
     \<and> length (filter (\<lambda>m. desc m = costTotalDesc) out) = 5 * length (aggregate resp)
     \<and> length (filter (\<lambda>m. desc m = kubePercentDesc) out)
         = (if enabled then length (aggregate resp) else 0)"
proof -
  let ?out = "concat (map (key_metrics enabled) (aggregate resp))"
  have run: "emitCostMetrics enabled [] resp = Inr ?out"
    by (simp add: emitCostMetrics_metrics)
  have body: "emit_key enabled ch entry
            = Inr (ch
                @ map (\<lambda>(costType, v).
                    \<lparr>desc = costTotalDesc, val = v,
                     labelValues = [providerID (fst entry), accountID (fst entry),
                       service (fst entry), category (fst entry), costType,
                       region (fst entry), availabilityZone (fst entry), owner (fst entry),
                       environment (fst entry), cluster (fst entry)]\<rparr>)
                  [(''list'', listCost (snd entry)), (''net'', netCost (snd entry)),
                   (''amortized_net'', amortizedNetCost (snd entry)),
                   (''invoiced'', invoicedCost (snd entry)),
                   (''amortized'', amortizedCost (snd entry))]
                @ (if enabled
                   then [\<lparr>desc = kubePercentDesc, val = kubePercent (snd entry),
                          labelValues = [providerID (fst entry), accountID (fst entry),
                            service (fst entry), category (fst entry), ''amortized_net'',
                            region (fst entry)]\<rparr>]
                   else []))" for entry :: "costKey \<times> 'a aggregatedCost"
    by (simp add: emit_key_metrics key_metrics_def cost_metric_def kube_metric_def)
  have per_key: "filter (\<lambda>m. desc m = costTotalDesc \<and> identifying m = key_labels (fst entry)) ?out
            = map (\<lambda>(costType, v).
                    \<lparr>desc = costTotalDesc, val = v,
                     labelValues = [providerID (fst entry), accountID (fst entry),
                       service (fst entry), category (fst entry), costType,
                       region (fst entry), availabilityZone (fst entry), owner (fst entry),
                       environment (fst entry), cluster (fst entry)]\<rparr>)
                  [(''list'', listCost (snd entry)), (''net'', netCost (snd entry)),
                   (''amortized_net'', amortizedNetCost (snd entry)),
                   (''invoiced'', invoicedCost (snd entry)),
                   (''amortized'', amortizedCost (snd entry))]"
    if "entry \<in> set (aggregate resp)" for entry
    using filter_cost_concat [OF aggregate_distinct that, of enabled]
    by (simp only: take_5_key_metrics)
  show ?thesis
    using run body per_key aggregate_distinct [of resp]
      length_filter_cost [of enabled "aggregate resp"]
      length_filter_kube [of enabled "aggregate resp"]
    by (intro exI [of _ ?out]) (simp only: simp_thms ball_conj_distrib, blast)
qed

theorem five_costs_per_key_witness:
  "(\<exists>out. emitCostMetrics True [] one_item = Inr out
      \<and> map (\<lambda>m. (labelValues m ! 4, val m))
           (filter (\<lambda>m. desc m = costTotalDesc
                      \<and> identifying m = key_labels (ec2_key ''us-east-1a'')) out)
         = [(''list'', 201 / 2), (''net'', 703 / 10), (''amortized_net'', 703 / 10),
            (''invoiced'', 703 / 10), (''amortized'', 703 / 10)]
      \<and> length (filter (\<lambda>m. desc m = costTotalDesc) out) = 5
      \<and> length (filter (\<lambda>m. desc m = kubePercentDesc) out) = 1)
   \<and> (\<exists>out. emitCostMetrics False [] one_item = Inr out
      \<and> length (filter (\<lambda>m. desc m = costTotalDesc) out) = 5
      \<and> length (filter (\<lambda>m. desc m = kubePercentDesc) out) = 0)"
  using five_costs_per_key [of True one_item "[]"] five_costs_per_key [of False one_item "[]"]
  by (simp add: aggregate_one_item) force

text \<open>
  Claim C10. With the Kubernetes-percent output enabled, the Kubernetes-percent
  metrics sent are one per entry, each with the six labels provider_id, account_id,
  service, category, cost_type = amortized_net and region (no availability zone, owner,
  environment or cluster), and with the value \<open>KubernetesPercent\<close> of the \<open>ListCost\<close> of the
  last item processed for the key.
\<close>

theorem kubePercent_observation:
  fixes resp :: "'a::{plus,zero} CloudCostResponse"
  shows "\<exists>out. emitCostMetrics True [] resp = Inr out
     \<and> map (\<lambda>m. (zip (variableLabels (desc m)) (labelValues m), val m))
          (filter (\<lambda>m. desc m = kubePercentDesc) out)
        = map (\<lambda>entry.
            ([(''provider_id'', providerID (fst entry)), (''account_id'', accountID (fst entry)),
              (''service'', service (fst entry)), (''category'', category (fst entry)),
              (''cost_type'', ''amortized_net''), (''region'', region (fst entry))],
             KubernetesPercent (ListCost (last (items_of (fst entry) resp)))))
          (aggregate resp)"
proof -
  let ?out = "concat (map (key_metrics True) (aggregate resp))"
  have shape: "map (\<lambda>m. (zip (variableLabels (desc m)) (labelValues m), val m))
          (filter (\<lambda>m. desc m = kubePercentDesc) (concat (map (key_metrics True) entries)))
        = map (\<lambda>entry.
            ([(''provider_id'', providerID (fst entry)), (''account_id'', accountID (fst entry)),
              (''service'', service (fst entry)), (''category'', category (fst entry)),
              (''cost_type'', ''amortized_net''), (''region'', region (fst entry))],
             kubePercent (snd entry))) entries"
    for entries :: "(costKey \<times> 'a aggregatedCost) list"
    using desc_distinct
    by (induction entries)
      (auto simp: key_metrics_def cost_metric_def kube_metric_def kubePercentDesc_def)
  have retained: "kubePercent (snd entry)
        = KubernetesPercent (ListCost (last (items_of (fst entry) resp)))"
    if "entry \<in> set (aggregate resp)" for entry
  proof -
    from that have m: "map_of (aggregate resp) (fst entry) = Some (snd entry)"
      using aggregate_distinct [of resp] by simp
    then have ne: "items_of (fst entry) resp \<noteq> []"
      by (auto simp: aggregate_lookup split: if_splits)
    with m have "snd entry = fold accumulate (items_of (fst entry) resp) zero_cost"
      by (simp add: aggregate_lookup)
    with ne show ?thesis
      by (simp add: fold_accumulate_kubePercent)
  qed
  have "map (\<lambda>entry.
            ([(''provider_id'', providerID (fst entry)), (''account_id'', accountID (fst entry)),
              (''service'', service (fst entry)), (''category'', category (fst entry)),
              (''cost_type'', ''amortized_net''), (''region'', region (fst entry))],
             kubePercent (snd entry))) (aggregate resp)
        = map (\<lambda>entry.
            ([(''provider_id'', providerID (fst entry)), (''account_id'', accountID (fst entry)),
              (''service'', service (fst entry)), (''category'', category (fst entry)),
              (''cost_type'', ''amortized_net''), (''region'', region (fst entry))],
             KubernetesPercent (ListCost (last (items_of (fst entry) resp)))))
          (aggregate resp)"
    by (rule map_cong [OF refl]) (simp add: retained)
  with shape [of "aggregate resp"] show ?thesis
    by (simp add: emitCostMetrics_metrics)
qed

theorem kubePercent_observation_witness:
  "\<exists>out. emitCostMetrics True [] one_item = Inr out
     \<and> map (\<lambda>m. (zip (variableLabels (desc m)) (labelValues m), val m))
          (filter (\<lambda>m. desc m = kubePercentDesc) out)
        = [([(''provider_id'', ''i-0123''), (''account_id'', ''123456789''),
             (''service'', ''AmazonEC2''), (''category'', ''Compute''),
             (''cost_type'', ''amortized_net''), (''region'', ''us-east-1'')], 3 / 4)]"
proof -
  have i: "items_of (ec2_key ''us-east-1a'') one_item
           = [ec2_item ''us-east-1a'' (201 / 2) (703 / 10) (3 / 4)]"
    by (simp add: items_of_def all_items_def one_item_def)
  from kubePercent_observation [of one_item]
  show ?thesis
    by (simp add: aggregate_one_item i) (simp add: ec2_key_def ec2_item_def)
qed

section \<open>Properties of scraping\<close>

lemma fetchAndCache_failed:
  assumes "fst (FetchCloudCosts (world r) (client_maxRetries c)) = Inl err"
  shows "fetchAndCache r c
         = (None, c\<lparr>scrapeDuration := scrapeDuration c @ [elapsed r],
                     scrapeErrors := scrapeErrors c + 1\<rparr>)"
  using assms by (simp add: fetchAndCache_def Let_def)

lemma Get_data: "data (snd (Get now ca)) = data ca"
  and Get_fetchedAt: "fetchedAt (snd (Get now ca)) = fetchedAt ca"
  by (simp_all add: Get_unfold)

lemma Get_miss_result: "\<not> snd (snd (fst (Get now ca))) \<Longrightarrow> fst (Get now ca) = (None, False, False)"
  by (simp add: Get_unfold split: if_splits)

lemma Collect_get_miss:
  assumes "\<not> snd (snd (fst (Get now (cache c))))"
  shows "Collect_get now c
         = ((None, True, False),
            c\<lparr>cache := snd (Get now (cache c)), cacheMisses := cacheMisses c + 1\<rparr>)"
  using Get_miss_result [OF assms]
  by (cases "Get now (cache c)") (simp add: Collect_get_def)

text \<open>
  Claim C6. For every collector state, a fetch that fails returns nil from
  \<open>fetchAndCache\<close> and leaves the cache as it was, while the error counter goes up by
  one; and a scrape that misses the cache and whose synchronous fetch fails serves
  nothing (no cost metric is sent) and leaves the snapshot and \<open>fetchedAt\<close> of the cache
  as they were before the scrape.
\<close>

theorem failed_fetch_keeps_cache:
  fixes c :: "'a::{plus,zero} Collector"
  assumes "fst (FetchCloudCosts (world r) (client_maxRetries c)) = Inl err"
  shows "fst (fetchAndCache r c) = None
       \<and> cache (snd (fetchAndCache r c)) = cache c
       \<and> scrapeErrors (snd (fetchAndCache r c)) = scrapeErrors c + 1
       \<and> (\<forall>sr. fetch sr = r \<and> \<not> snd (snd (fst (Get (started sr) (cache c)))) \<longrightarrow>
            served (fst (Collect sr c)) = None
          \<and> metrics (fst (Collect sr c)) = Inr []
          \<and> data (cache (snd (Collect sr c))) = data (cache c)
          \<and> fetchedAt (cache (snd (Collect sr c))) = fetchedAt (cache c)
          \<and> scrapeErrors (snd (Collect sr c)) = scrapeErrors c + 1)"
proof -
  have sync: "served (fst (Collect sr c)) = None
          \<and> metrics (fst (Collect sr c)) = Inr []
          \<and> data (cache (snd (Collect sr c))) = data (cache c)
          \<and> fetchedAt (cache (snd (Collect sr c))) = fetchedAt (cache c)
          \<and> scrapeErrors (snd (Collect sr c)) = scrapeErrors c + 1"
    if "fetch sr = r" and miss: "\<not> snd (snd (fst (Get (started sr) (cache c))))" for sr
  proof -
    let ?c = "c\<lparr>cache := snd (Get (started sr) (cache c)), cacheMisses := cacheMisses c + 1\<rparr>"
    have "fst (FetchCloudCosts (world r) (client_maxRetries ?c)) = Inl err"
      using assms by simp
    from fetchAndCache_failed [OF this] that(1) show ?thesis
      by (simp add: Collect_def Collect_get_miss [OF miss] Collect_emit_def Let_def
          Get_data Get_fetchedAt)
  qed
  from fetchAndCache_failed [OF assms] sync show ?thesis
    by simp
qed

lemma always_500_no_retries:
  "fst (FetchCloudCosts (always_500 :: rat CloudCostResponse fetch_env) 0)
   = Inl (AfterRetries 0 (Some (UnexpectedStatus 500 ''internal error'')))"
  by (simp add: FetchCloudCosts_def always_500_def retry_loop.simps doFetch_def)

theorem failed_fetch_keeps_cache_witness:
  "served (fst (Collect (scrape_at 500) stale_collector)) = None
   \<and> metrics (fst (Collect (scrape_at 500) stale_collector)) = Inr []
   \<and> data (cache (snd (Collect (scrape_at 500) stale_collector))) = Some empty_response
   \<and> fetchedAt (cache (snd (Collect (scrape_at 500) stale_collector))) = 0
   \<and> scrapeErrors (snd (Collect (scrape_at 500) stale_collector)) = 1"
proof -
  have f: "fst (FetchCloudCosts (world (failing_fetch 500)) (client_maxRetries stale_collector))
           = Inl (AfterRetries 0 (Some (UnexpectedStatus 500 ''internal error'')))"
    using always_500_no_retries
    by (simp add: failing_fetch_def stale_collector_def New_Collector_def)
  have m: "\<not> snd (snd (fst (Get (started (scrape_at 500)) (cache stale_collector))))"
    by (simp add: Get_unfold scrape_at_def stale_collector_def New_Collector_def
        time_Since_def sint_time_Sub maxDuration_def minDuration_def)
  from failed_fetch_keeps_cache [OF f] m show ?thesis
    by (simp add: scrape_at_def) (simp add: stale_collector_def New_Collector_def)
qed




















lemma run_snoc: "run (as @ [a]) s = Option.bind (run as s) (step a)"
  by (induction as arbitrary: s) (auto split: option.splits)









end
